theory Spec2Isabelle
  imports Main "HOL-Library.Char_ord" "HOL-Library.Finite_Map" "HOL-Library.Sublist"
begin

unbundle bit_operations_syntax

section \<open>The HTML renderer of html/renderer.go\<close>

text \<open>
  Byte slices and Go strings are modelled as \<^typ>\<open>string\<close> (a list of 8-bit characters),
  so \<open>length\<close> counts bytes as Go's \<open>len\<close> does. Go's \<open>int\<close> is modelled as
  \<^typ>\<open>int\<close>: the counters of this file (heading counts, nesting levels, the tag
  suppression depth) only move by one per node of the document and stay far from the
  bounds of a machine word. A panic of the Go code (index out of range, nil dereference,
  failed type assertion, slice bounds, the explicit panic of the dispatcher) is a value
  of type \<open>panic\<close>, returned as \<open>Inl\<close>.
\<close>

datatype panic = IndexOutOfRange | SliceBounds | NilDereference | TypeAssertion | UnknownNodeType

subsection \<open>Character classes (isAlnum, isLetter, isSpace)\<close>

definition isLetter :: "char \<Rightarrow> bool" where
  "isLetter c = ((CHR ''a'' \<le> c \<and> c \<le> CHR ''z'') \<or> (CHR ''A'' \<le> c \<and> c \<le> CHR ''Z''))"

definition isAlnum :: "char \<Rightarrow> bool" where
  "isAlnum c = ((CHR ''0'' \<le> c \<and> c \<le> CHR ''9'') \<or> isLetter c)"

definition isSpace :: "char \<Rightarrow> bool" where
  "isSpace c = (c = CHR '' '' \<or> c = CHR 0x09 \<or> c = CHR 0x0A \<or> c = CHR 0x0D
                \<or> c = CHR 0x0C \<or> c = CHR 0x0B)"

subsection \<open>isSafeLink\<close>

text \<open>
  \<open>bytes.ToLower\<close> on the first \<open>len(prefix)\<close> bytes of the link, compared with an
  all-ASCII prefix of the same length. On ASCII bytes it maps \<open>A..Z\<close> to \<open>a..z\<close>. A slice
  holding a byte outside ASCII is lower-cased rune by rune; its result either still holds
  a byte outside ASCII or is shorter than the slice, so it differs from the prefix either
  way, as the byte-wise mapping below does (it leaves such bytes alone).
\<close>

definition toLowerByte :: "char \<Rightarrow> char" where
  "toLowerByte c = (if CHR ''A'' \<le> c \<and> c \<le> CHR ''Z'' then char_of (of_char c + (32::nat)) else c)"

definition ToLower :: "string \<Rightarrow> string" where
  "ToLower s = map toLowerByte s"

definition validUris :: "string list" where
  "validUris = [''http://'', ''https://'', ''ftp://'', ''mailto://'']"

definition validPaths :: "string list" where
  "validPaths = [''/'', ''./'', ''../'']"

text \<open>The two \<open>for ... range\<close> loops of isSafeLink, each returning at its first hit.\<close>

fun safePathLoop :: "string \<Rightarrow> string list \<Rightarrow> bool" where
  "safePathLoop link [] = False"
| "safePathLoop link (path # paths) =
     (if length link \<ge> length path \<and> take (length path) link = path then
        (if length link = length path then True
         else if isAlnum (link ! length path) then True
         else safePathLoop link paths)
      else safePathLoop link paths)"

fun safeUriLoop :: "string \<Rightarrow> string list \<Rightarrow> bool" where
  "safeUriLoop link [] = False"
| "safeUriLoop link (pre # pres) =
     (if length link > length pre \<and> ToLower (take (length pre) link) = pre
         \<and> isAlnum (link ! length pre)
      then True
      else safeUriLoop link pres)"

definition isSafeLink :: "string \<Rightarrow> bool" where
  "isSafeLink link = (if safePathLoop link validPaths then True else safeUriLoop link validUris)"

text \<open>
  The acceptance condition in the words of the specification: a relative-path entry
  matched exactly or followed by an alphanumeric byte, or a scheme entry matched without
  regard to case and followed by an alphanumeric byte.
\<close>

definition isSafeLink_spec :: "string \<Rightarrow> bool" where
  "isSafeLink_spec link =
     ((\<exists>p \<in> {''/'', ''./'', ''../''}. link = p \<or> (\<exists>c rest. link = p @ c # rest \<and> isAlnum c))
      \<or> (\<exists>s \<in> {''http://'', ''https://'', ''ftp://'', ''mailto://''}.
            \<exists>pre c rest. link = pre @ c # rest \<and> ToLower pre = s \<and> isAlnum c))"

subsection \<open>slugify\<close>

text \<open>
  The first loop builds \<open>out\<close> with the flag \<open>sym\<close> (here \<open>symf\<close>). The second loop leaves in \<open>a\<close> the
  index at which it broke, or the last index it visited when it never broke. The third
  loop counts \<open>b\<close> down from the last index while \<open>b > 0\<close>. The result is the slice
  \<open>out[a : b+1]\<close>, which panics when \<open>a > b+1\<close>.
\<close>

fun slugBuild :: "string \<Rightarrow> bool \<Rightarrow> string \<Rightarrow> string" where
  "slugBuild out symf [] = out"
| "slugBuild out symf (ch # rest) =
     (if isAlnum ch then slugBuild (out @ [ch]) False rest
      else if symf then slugBuild out symf rest
      else slugBuild (out @ [CHR ''-'']) True rest)"

fun slugLead :: "string \<Rightarrow> nat \<Rightarrow> nat \<Rightarrow> nat" where
  "slugLead [] i a = a"
| "slugLead (ch # rest) i a = (if ch \<noteq> CHR ''-'' then i else slugLead rest (Suc i) i)"

fun slugTrail :: "string \<Rightarrow> nat \<Rightarrow> nat" where
  "slugTrail out 0 = 0"
| "slugTrail out (Suc b) = (if out ! Suc b \<noteq> CHR ''-'' then Suc b else slugTrail out b)"

definition slugify :: "string \<Rightarrow> panic + string" where
  "slugify inp =
     (if length inp = 0 then Inr inp
      else let out = slugBuild [] False inp;
               a = slugLead out 0 0;
               b = slugTrail out (length out - 1)
           in if a \<le> b + 1 then Inr (take (b + 1 - a) (drop a out)) else Inl SliceBounds)"

subsection \<open>isRelativeLink\<close>

definition isRelativeLink :: "string \<Rightarrow> panic + bool" where
  "isRelativeLink link =
     (if length link = 0 then Inl IndexOutOfRange
      else if link ! 0 = CHR ''#'' then Inr True
      else if length link \<ge> 2 \<and> link ! 0 = CHR ''/'' \<and> link ! 1 \<noteq> CHR ''/'' then Inr True
      else if length link = 1 \<and> link ! 0 = CHR ''/'' then Inr True
      else if prefix ''./'' link then Inr True
      else if prefix ''../'' link then Inr True
      else Inr False)"

subsection \<open>Decimal formatting (the verb %d of fmt.Sprintf, strconv.Itoa)\<close>

fun natDigits :: "nat \<Rightarrow> string" where
  "natDigits n = (if n < 10 then [''0123456789'' ! n]
                  else natDigits (n div 10) @ [''0123456789'' ! (n mod 10)])"

definition Itoa :: "int \<Rightarrow> string" where
  "Itoa i = (if i < 0 then CHR ''-'' # natDigits (nat (- i)) else natDigits (nat i))"

subsection \<open>The heading-ID registry\<close>

text \<open>
  \<open>headingIDs\<close> is a Go map from strings to ints: a finite map. The loop of
  ensureUniqueHeadingID runs while the current id is a key of the map; in its body the map
  only has the value of an existing key replaced. It ends because the id gets longer in
  every round and the keys are finitely many.
\<close>

type_synonym headingIDs = "(string, int) fmap"

definition maxKeyLen :: "headingIDs \<Rightarrow> nat" where
  "maxKeyLen m = Max (insert 0 (length ` fset (fmdom m)))"

function headingIDLoop :: "headingIDs \<Rightarrow> string \<Rightarrow> headingIDs \<times> string" where
  "headingIDLoop m ident =
     (case fmlookup m ident of
        None \<Rightarrow> (m, ident)
      | Some count \<Rightarrow>
          (let tmp = ident @ ''-'' @ Itoa (count + 1) in
           case fmlookup m tmp of
             None \<Rightarrow> headingIDLoop (fmupd ident (count + 1) m) tmp
           | Some _ \<Rightarrow> headingIDLoop m (ident @ ''-1'')))"
  by pat_completeness auto

termination headingIDLoop
proof (relation "measure (\<lambda>(m, ident). Suc (maxKeyLen m) - length ident)")
  show "wf (measure (\<lambda>(m, ident). Suc (maxKeyLen m) - length ident))"
    by simp
next
  fix m :: headingIDs and ident :: string and count :: int and tmp :: string
  assume look: "fmlookup m ident = Some count"
  assume tmp: "tmp = ident @ ''-'' @ Itoa (count + 1)"
  have dom: "ident |\<in>| fmdom m"
    using look by (simp add: fmdomI)
  then have "length ident \<in> insert 0 (length ` fset (fmdom m))"
    by simp
  then have "length ident \<le> maxKeyLen m"
    unfolding maxKeyLen_def by (intro Max_ge) auto
  moreover have "finsert ident (fmdom m) = fmdom m"
    using dom by auto
  then have "maxKeyLen (fmupd ident (count + 1) m) = maxKeyLen m"
    by (simp add: maxKeyLen_def)
  moreover have "length ident < length tmp"
    using tmp by simp
  ultimately show "((fmupd ident (count + 1) m, tmp), (m, ident))
      \<in> measure (\<lambda>(m, ident). Suc (maxKeyLen m) - length ident)"
    by simp
next
  fix m :: headingIDs and ident :: string and count :: int and tmp :: string and x :: int
  assume look: "fmlookup m ident = Some count"
  have "ident |\<in>| fmdom m"
    using look by (simp add: fmdomI)
  then have "length ident \<in> insert 0 (length ` fset (fmdom m))"
    by simp
  then have "length ident \<le> maxKeyLen m"
    unfolding maxKeyLen_def by (intro Max_ge) auto
  then show "((m, ident @ ''-1''), (m, ident))
      \<in> measure (\<lambda>(m, ident). Suc (maxKeyLen m) - length ident)"
    by simp
qed

declare headingIDLoop.simps [simp del]

subsection \<open>The raw-tag pattern htmlTagRe\<close>

text \<open>
  The pattern is compiled from the string constants of the file, under the flag \<open>(?i)\<close> and
  anchored by \<open>^\<close>. A pattern is matched the way Go's regexp package chooses a match
  (leftmost-first): \<open>rmatch\<close> lists the remainders of the input after every way of matching
  at its start, the preferred way first (the left alternative before the right one, more
  rounds of a greedy star before fewer, fewer rounds of a lazy star before more). Bytes
  stand for characters, so a negated class or a dot consumes one byte; on ASCII input
  that is one character.
\<close>

datatype regex =
    Lit string
  | Cls bool "(char \<times> char) list"
  | Dot
  | Seq regex regex
  | Alt regex regex
  | Opt regex
  | Star regex
  | LazyStar regex

definition toUpperByte :: "char \<Rightarrow> char" where
  "toUpperByte c = (if CHR ''a'' \<le> c \<and> c \<le> CHR ''z'' then char_of (of_char c - (32::nat)) else c)"

definition inRanges :: "(char \<times> char) list \<Rightarrow> char \<Rightarrow> bool" where
  "inRanges rs c = list_ex (\<lambda>(lo, hi). lo \<le> c \<and> c \<le> hi) rs"

text \<open>Membership in a character class under \<open>(?i)\<close>: the class is closed under case first,
  then negated.\<close>

definition inClass :: "bool \<Rightarrow> (char \<times> char) list \<Rightarrow> char \<Rightarrow> bool" where
  "inClass neg rs c =
     (let hit = (inRanges rs c \<or> inRanges rs (toLowerByte c) \<or> inRanges rs (toUpperByte c))
      in if neg then \<not> hit else hit)"

function rmatch :: "regex \<Rightarrow> string \<Rightarrow> string list" where
  "rmatch (Lit l) s =
     (if length l \<le> length s \<and> ToLower (take (length l) s) = ToLower l
      then [drop (length l) s] else [])"
| "rmatch (Cls neg rs) s =
     (case s of [] \<Rightarrow> [] | c # cs \<Rightarrow> if inClass neg rs c then [cs] else [])"
| "rmatch Dot s =
     (case s of [] \<Rightarrow> [] | c # cs \<Rightarrow> if c \<noteq> CHR 0x0A then [cs] else [])"
| "rmatch (Seq a b) s = concat (map (rmatch b) (rmatch a s))"
| "rmatch (Alt a b) s = rmatch a s @ rmatch b s"
| "rmatch (Opt a) s = rmatch a s @ [s]"
| "rmatch (Star a) s =
     concat (map (\<lambda>t. if length t < length s then rmatch (Star a) t else []) (rmatch a s)) @ [s]"
| "rmatch (LazyStar a) s =
     s # concat (map (\<lambda>t. if length t < length s then rmatch (LazyStar a) t else []) (rmatch a s))"
  by pat_completeness auto
termination
  by (relation "measure size <*lex*> measure length") auto

declare rmatch.simps [simp del]

definition Plus :: "regex \<Rightarrow> regex" where
  "Plus a = Seq a (Star a)"

fun Seqs :: "regex list \<Rightarrow> regex" where
  "Seqs [] = Lit []"
| "Seqs [a] = a"
| "Seqs (a # b # rest) = Seq a (Seqs (b # rest))"

fun Alts :: "regex list \<Rightarrow> regex" where
  "Alts [] = Cls False []"
| "Alts [a] = a"
| "Alts (a # b # rest) = Alt a (Alts (b # rest))"

text \<open>The class \<open>\s\<close> of the regexp syntax: tab, newline, form feed, carriage return, space.\<close>

definition reSpace :: regex where
  "reSpace = Cls False [(CHR 0x09, CHR 0x0A), (CHR 0x0C, CHR 0x0D), (CHR '' '', CHR '' '')]"

definition tagName :: regex where
  "tagName = Seq (Cls False [(CHR ''A'', CHR ''Z''), (CHR ''a'', CHR ''z'')])
                 (Star (Cls False [(CHR ''A'', CHR ''Z''), (CHR ''a'', CHR ''z''),
                                   (CHR ''0'', CHR ''9''), (CHR ''-'', CHR ''-'')]))"

definition unquotedValue :: regex where
  \<open>unquotedValue = Plus (Cls True [(CHR 0x22, CHR 0x22), (CHR 0x27, CHR 0x27), (CHR ''='', CHR ''=''),
      (CHR ''<'', CHR ''<''), (CHR ''>'', CHR ''>''), (CHR 0x60, CHR 0x60), (CHR 0x00, CHR 0x20)])\<close>

definition singleQuotedValue :: regex where
  "singleQuotedValue = Seqs [Lit [CHR 0x27], Star (Cls True [(CHR 0x27, CHR 0x27)]), Lit [CHR 0x27]]"

definition doubleQuotedValue :: regex where
  "doubleQuotedValue = Seqs [Lit [CHR 0x22], Star (Cls True [(CHR 0x22, CHR 0x22)]), Lit [CHR 0x22]]"

definition attributeValue :: regex where
  "attributeValue = Alts [unquotedValue, singleQuotedValue, doubleQuotedValue]"

definition attributeValueSpec :: regex where
  "attributeValueSpec = Seqs [Star reSpace, Lit ''='', Star reSpace, attributeValue]"

definition attributeName :: regex where
  "attributeName = Seq (Cls False [(CHR ''a'', CHR ''z''), (CHR ''A'', CHR ''Z''),
                                   (CHR ''_'', CHR ''_''), (CHR '':'', CHR '':'')])
                       (Star (Cls False [(CHR ''a'', CHR ''z''), (CHR ''A'', CHR ''Z''),
                                         (CHR ''0'', CHR ''9''), (CHR '':'', CHR '':''),
                                         (CHR ''.'', CHR ''.''), (CHR ''_'', CHR ''_''),
                                         (CHR ''-'', CHR ''-'')]))"

definition attribute :: regex where
  "attribute = Seqs [Plus reSpace, attributeName, Opt attributeValueSpec]"

definition openTag_re :: regex where
  "openTag_re = Seqs [Lit ''<'', tagName, Star attribute, Star reSpace, Opt (Lit ''/''), Lit ''>'']"

definition closeTag_re :: regex where
  "closeTag_re = Seqs [Lit ''</'', tagName, Star reSpace, Cls False [(CHR ''>'', CHR ''>'')]]"

text \<open>The constant htmlComment holds an alternation of its own, \<open><!---->\<close> or the general
  form; spliced into htmlTag it adds two alternatives.\<close>

definition htmlCommentEmpty :: regex where
  "htmlCommentEmpty = Lit ''<!---->''"

definition htmlCommentBody :: regex where
  "htmlCommentBody =
     Seqs [Lit ''<!--'',
           Seq (Opt (Lit ''-'')) (Cls True [(CHR ''>'', CHR ''>''), (CHR ''-'', CHR ''-'')]),
           Star (Seq (Opt (Lit ''-'')) (Cls True [(CHR ''-'', CHR ''-'')])),
           Lit ''-->'']"

definition processingInstruction :: regex where
  "processingInstruction =
     Seqs [Cls False [(CHR ''<'', CHR ''<'')], Cls False [(CHR ''?'', CHR ''?'')], LazyStar Dot,
           Cls False [(CHR ''?'', CHR ''?'')], Cls False [(CHR ''>'', CHR ''>'')]]"

definition declaration_re :: regex where
  "declaration_re =
     Seqs [Lit ''<!'', Plus (Cls False [(CHR ''A'', CHR ''Z'')]), Plus reSpace,
           Star (Cls True [(CHR ''>'', CHR ''>'')]), Lit ''>'']"

definition cdata :: regex where
  "cdata = Seqs [Lit ''<![CDATA['', LazyStar (Cls True []), Lit '']]>'']"

definition htmlTag :: regex where
  "htmlTag = Alts [openTag_re, closeTag_re, htmlCommentEmpty, htmlCommentBody,
                   processingInstruction, declaration_re, cdata]"

text \<open>
  \<open>htmlTagRe.ReplaceAll(d, [])\<close> and \<open>htmlTagRe.ReplaceAllString(s, "")\<close>. The pattern
  starts with \<open>^\<close>, which holds at offset 0 of the input only, and every alternative
  starts with \<open><\<close>, so there is at most one match, it is not empty, and replacing it
  by nothing leaves the input after it.
\<close>

definition htmlTagRe_ReplaceAll :: "string \<Rightarrow> string" where
  "htmlTagRe_ReplaceAll d = (case rmatch htmlTag d of [] \<Rightarrow> d | t # _ \<Rightarrow> t)"

subsection \<open>The syntax tree read by the renderer (package ast)\<close>

datatype WalkStatus = GoToNext | SkipChildren | Terminate

text \<open>
  Modelled from the spec: the flag bits of \<open>ast.ListType\<close> are declared in package ast,
  which is not among the sources. The specification names an ordering flag, a
  definition-list flag and a term flag; they are distinct single bits, tested by the
  renderer with \<open>&\<close>.
\<close>

definition ListTypeOrdered :: int where
  "ListTypeOrdered = 2 ^ 0"

definition ListTypeDefinition :: int where
  "ListTypeDefinition = 2 ^ 1"

definition ListTypeTerm :: int where
  "ListTypeTerm = 2 ^ 2"

text \<open>
  Modelled from the spec: the alignment enum of table cells (\<open>ast.CellAlignFlags\<close>), with
  one more value for whatever else the field holds.
\<close>

datatype CellAlignFlags =
  TableAlignmentLeft | TableAlignmentRight | TableAlignmentCenter | TableAlignmentNone

text \<open>The fields of the node data that the renderer reads. A byte slice compared with
  \<open>nil\<close> in the source is an option.\<close>

record ListData =
  ListFlags :: int
  Tight :: bool
  IsFootnotesList :: bool

record ListItemData =
  ListFlags :: int
  RefLink :: "string option"

record HeadingData =
  Level :: int
  HeadingID :: string
  IsTitleblock :: bool

record LinkData =
  Destination :: string
  Title :: string
  NoteID :: int

record ImageData =
  Destination :: string
  Title :: "string option"

record CodeBlockData =
  Info :: string

record TableCellData =
  IsHeader :: bool
  Align :: CellAlignFlags

text \<open>The dynamic type of \<open>node.Data\<close>; \<open>UnknownData\<close> stands for every type that the type
  switch of RenderNode does not list.\<close>

datatype NodeData =
    TextData
  | SoftbreakData
  | HardbreakData
  | EmphData
  | StrongData
  | DelData
  | BlockQuoteData
  | LinkData LinkData
  | ImageData ImageData
  | CodeData
  | CodeBlockData CodeBlockData
  | DocumentData
  | ParagraphData
  | HTMLSpanData
  | HTMLBlockData
  | HeadingData HeadingData
  | HorizontalRuleData
  | ListData ListData
  | ListItemData ListItemData
  | TableData
  | TableCellData TableCellData
  | TableHeadData
  | TableBodyData
  | TableRowData
  | UnknownData

datatype Node = Node (Data: NodeData) (Literal: string) (Children: "Node list")

text \<open>
  A node as the renderer reaches it through a pointer: the node itself, the data of the
  nodes on its \<open>Parent\<close> chain (the parent first; empty when \<open>node.Parent\<close> is nil), and
  the data of \<open>node.Prev()\<close> and \<open>node.Next()\<close> (\<open>None\<close> when nil).
\<close>

record Cursor =
  Self :: Node
  Ancestors :: "NodeData list"
  PrevData :: "NodeData option"
  NextData :: "NodeData option"

definition Parent :: "Cursor \<Rightarrow> NodeData option" where
  "Parent c = (case Ancestors c of [] \<Rightarrow> None | p # _ \<Rightarrow> Some p)"

definition isListData :: "NodeData \<Rightarrow> bool" where
  "isListData d = (case d of ListData _ \<Rightarrow> True | _ \<Rightarrow> False)"

definition isListTight :: "NodeData \<Rightarrow> bool" where
  "isListTight d = (case d of ListData listData \<Rightarrow> Tight listData | _ \<Rightarrow> False)"

definition isListItemData :: "NodeData \<Rightarrow> bool" where
  "isListItemData d = (case d of ListItemData _ \<Rightarrow> True | _ \<Rightarrow> False)"

definition isListItemTerm :: "NodeData \<Rightarrow> bool" where
  "isListItemTerm d =
     (case d of ListItemData dat \<Rightarrow> ListItemData.ListFlags dat AND ListTypeTerm \<noteq> 0 | _ \<Rightarrow> False)"

definition isLinkData :: "NodeData \<Rightarrow> bool" where
  "isLinkData d = (case d of LinkData _ \<Rightarrow> True | _ \<Rightarrow> False)"

definition isBlockQuoteData :: "NodeData \<Rightarrow> bool" where
  "isBlockQuoteData d = (case d of BlockQuoteData \<Rightarrow> True | _ \<Rightarrow> False)"

definition isDocumentData :: "NodeData \<Rightarrow> bool" where
  "isDocumentData d = (case d of DocumentData \<Rightarrow> True | _ \<Rightarrow> False)"

subsection \<open>Flags, options and the renderer's state\<close>

definition SkipHTML :: int where "SkipHTML = 2 ^ 1"
definition SkipImages :: int where "SkipImages = 2 ^ 2"
definition SkipLinks :: int where "SkipLinks = 2 ^ 3"
definition Safelink :: int where "Safelink = 2 ^ 4"
definition NofollowLinks :: int where "NofollowLinks = 2 ^ 5"
definition NoreferrerLinks :: int where "NoreferrerLinks = 2 ^ 6"
definition HrefTargetBlank :: int where "HrefTargetBlank = 2 ^ 7"
definition CompletePage :: int where "CompletePage = 2 ^ 8"
definition UseXHTML :: int where "UseXHTML = 2 ^ 9"
definition FootnoteReturnLinks :: int where "FootnoteReturnLinks = 2 ^ 10"
definition Smartypants :: int where "Smartypants = 2 ^ 11"

text \<open>
  The hook of the options is a Go function value that writes to \<open>w\<close> and returns a status
  and whether it handled the node; here it is a function of the node and the direction
  giving the text it writes, the status and the flag.
\<close>

record RendererOptions =
  AbsolutePrefix :: string
  FootnoteAnchorPrefix :: string
  FootnoteReturnLinkContents :: string
  HeadingIDPrefix :: string
  HeadingIDSuffix :: string
  Title :: string
  CSS :: string
  Icon :: string
  Flags :: int
  RenderNodeHook :: "(Cursor \<Rightarrow> bool \<Rightarrow> string \<times> WalkStatus \<times> bool) option"

text \<open>
  The state of a \<open>Renderer\<close>. The field \<open>sr\<close> is the state of the punctuation engine
  (\<open>*SPRenderer\<close>), of a type \<open>'sr\<close> left open.
\<close>

record 'sr Renderer =
  opts :: RendererOptions
  closeTag :: string
  headingIDs :: headingIDs
  lastOutputLen :: int
  disableTags :: int
  sr :: 'sr

text \<open>
  The functions of this package that are declared in other files (esc.go,
  smartypants.go) are parameters of the model: \<open>EscapeHTML\<close> and \<open>escLink\<close> give the bytes
  they write, \<open>Process\<close> the new state of the engine and the bytes it writes.
\<close>

record 'sr Externals =
  EscapeHTML :: "string \<Rightarrow> string"
  escLink :: "string \<Rightarrow> string"
  Process :: "'sr \<Rightarrow> string \<Rightarrow> 'sr \<times> string"
  NewSmartypantsRenderer :: "int \<Rightarrow> 'sr"

text \<open>A renderer together with the bytes written so far to the writer \<open>w\<close>.\<close>

type_synonym 'sr rw = "'sr Renderer \<times> string"

fun bindP :: "panic + 'a \<Rightarrow> ('a \<Rightarrow> panic + 'b) \<Rightarrow> panic + 'b" where
  "bindP (Inl e) f = Inl e"
| "bindP (Inr x) f = f x"

definition NewRenderer :: "'sr Externals \<Rightarrow> RendererOptions \<Rightarrow> 'sr Renderer" where
  "NewRenderer X options =
     (let closeTag = (if Flags options AND UseXHTML \<noteq> 0 then '' />'' else ''>'');
          options1 = (if FootnoteReturnLinkContents options = []
                      then options\<lparr>FootnoteReturnLinkContents := ''<sup>[return]</sup>''\<rparr>
                      else options)
      in \<lparr>opts = options1, closeTag = closeTag, headingIDs = fmempty, lastOutputLen = 0,
          disableTags = 0, sr = NewSmartypantsRenderer X (Flags options)\<rparr>)"

definition ensureUniqueHeadingID :: "'sr Renderer \<Rightarrow> string \<Rightarrow> 'sr Renderer \<times> string" where
  "ensureUniqueHeadingID r ident =
     (case headingIDLoop (headingIDs r) ident of
        (m, ident1) \<Rightarrow>
          (r\<lparr>headingIDs := (case fmlookup m ident1 of None \<Rightarrow> fmupd ident1 0 m | Some _ \<Rightarrow> m)\<rparr>,
           ident1))"

subsection \<open>Writing to the output\<close>

fun Join :: "string list \<Rightarrow> string \<Rightarrow> string" where
  "Join [] sep = []"
| "Join [a] sep = a"
| "Join (a # b # rest) sep = a @ sep @ Join (b # rest) sep"

text \<open>outTag writes with \<open>io.WriteString\<close>, past the raw-tag filter of \<open>out\<close> and \<open>outs\<close>.\<close>

fun outTag :: "'sr rw \<Rightarrow> string \<Rightarrow> string list \<Rightarrow> 'sr rw" where
  "outTag (r, w) name attrs =
     (let s = (if length attrs > 0 then '' '' @ Join attrs '' '' else [])
      in (r\<lparr>lastOutputLen := 1\<rparr>, w @ name @ s @ ''>''))"

fun out :: "'sr rw \<Rightarrow> string \<Rightarrow> 'sr rw" where
  "out (r, w) d =
     (r\<lparr>lastOutputLen := int (length d)\<rparr>,
      w @ (if disableTags r > 0 then htmlTagRe_ReplaceAll d else d))"

fun outs :: "'sr rw \<Rightarrow> string \<Rightarrow> 'sr rw" where
  "outs (r, w) s =
     (r\<lparr>lastOutputLen := int (length s)\<rparr>,
      w @ (if disableTags r > 0 then htmlTagRe_ReplaceAll s else s))"

fun cr :: "'sr rw \<Rightarrow> 'sr rw" where
  "cr (r, w) = (if lastOutputLen r > 0 then outs (r, w) ''\<newline>'' else (r, w))"

text \<open>A write that goes to \<open>w\<close> directly (EscapeHTML, escLink, Process): the renderer's
  fields stay as they are.\<close>

fun writeTo :: "'sr rw \<Rightarrow> string \<Rightarrow> 'sr rw" where
  "writeTo (r, w) s = (r, w @ s)"

definition outOneOf :: "'sr rw \<Rightarrow> bool \<Rightarrow> string \<Rightarrow> string \<Rightarrow> 'sr rw" where
  "outOneOf rw outFirst first second = (if outFirst then outs rw first else outs rw second)"

definition outOneOfCr :: "'sr rw \<Rightarrow> bool \<Rightarrow> string \<Rightarrow> string \<Rightarrow> 'sr rw" where
  "outOneOfCr rw outFirst first second =
     (if outFirst then outs (cr rw) first else cr (outs rw second))"

definition openHTags :: "string list" where
  "openHTags = [''<h1'', ''<h2'', ''<h3'', ''<h4'', ''<h5'']"

definition closeHTags :: "string list" where
  "closeHTags = [''</h1>'', ''</h2>'', ''</h3>'', ''</h4>'', ''</h5>'']"

definition headingOpenTagFromLevel :: "int \<Rightarrow> string" where
  "headingOpenTagFromLevel level =
     (if level < 1 \<or> level > 5 then ''<h6'' else openHTags ! nat (level - 1))"

definition headingCloseTagFromLevel :: "int \<Rightarrow> string" where
  "headingCloseTagFromLevel level =
     (if level < 1 \<or> level > 5 then ''</h6>'' else closeHTags ! nat (level - 1))"

definition outHRTag :: "'sr rw \<Rightarrow> 'sr rw" where
  "outHRTag rw = outOneOf rw (Flags (opts (fst rw)) AND UseXHTML = 0) ''<hr>'' ''<hr />''"

subsection \<open>Links\<close>

definition addAbsPrefix :: "'sr Renderer \<Rightarrow> string \<Rightarrow> panic + string" where
  "addAbsPrefix r link =
     (if AbsolutePrefix (opts r) \<noteq> [] then
        bindP (isRelativeLink link) (\<lambda>rel.
          if rel \<and> link ! 0 \<noteq> CHR ''.'' then
            Inr (AbsolutePrefix (opts r) @ (if link ! 0 \<noteq> CHR ''/'' then ''/'' else []) @ link)
          else Inr link)
      else Inr link)"

text \<open>The verb \<open>%q\<close> applied to the words \<open>nofollow\<close> and \<open>noreferrer\<close> joined by a space:
  letters and spaces are copied as they are, between double quotes.\<close>

definition quoted :: "string \<Rightarrow> string" where
  "quoted s = [CHR 0x22] @ s @ [CHR 0x22]"

definition appendLinkAttrs :: "string list \<Rightarrow> int \<Rightarrow> string \<Rightarrow> panic + string list" where
  \<open>appendLinkAttrs attrs flags link =
     bindP (isRelativeLink link) (\<lambda>rel.
       if rel then Inr attrs
       else
         let val0 = (if flags AND NofollowLinks \<noteq> 0 then [''nofollow''] else []);
             val = (if flags AND NoreferrerLinks \<noteq> 0 then val0 @ [''noreferrer''] else val0);
             attrs1 = (if flags AND HrefTargetBlank \<noteq> 0 then attrs @ [''target="_blank"''] else attrs)
         in if length val = 0 then Inr attrs1
            else Inr (attrs1 @ [''rel='' @ quoted (Join val '' '')]))\<close>

definition isMailto :: "string \<Rightarrow> bool" where
  "isMailto link = prefix ''mailto:'' link"

definition needSkipLink :: "int \<Rightarrow> string \<Rightarrow> bool" where
  "needSkipLink flags dest =
     (if flags AND SkipLinks \<noteq> 0 then True
      else flags AND Safelink \<noteq> 0 \<and> \<not> isSafeLink dest \<and> \<not> isMailto dest)"

definition footnoteRef :: "string \<Rightarrow> LinkData \<Rightarrow> panic + string" where
  \<open>footnoteRef pre node =
     bindP (slugify (LinkData.Destination node)) (\<lambda>slug.
       let urlFrag = pre @ slug;
           nStr = Itoa (NoteID node);
           anchor = ''<a rel="footnote" href="#fn:'' @ urlFrag @ ''">'' @ nStr @ ''</a>''
       in Inr (''<sup class="footnote-ref" id="fnref:'' @ urlFrag @ ''">'' @ anchor @ ''</sup>''))\<close>

definition footnoteItem :: "string \<Rightarrow> string \<Rightarrow> string" where
  \<open>footnoteItem pre slug = ''<li id="fn:'' @ pre @ slug @ ''">''\<close>

definition footnoteReturnLink :: "string \<Rightarrow> string \<Rightarrow> string \<Rightarrow> string" where
  \<open>footnoteReturnLink pre returnLink slug =
     '' <a class="footnote-return" href="#fnref:'' @ pre @ slug @ ''">'' @ returnLink @ ''</a>''\<close>

definition linkEnter :: "'sr Externals \<Rightarrow> 'sr rw \<Rightarrow> LinkData \<Rightarrow> panic + 'sr rw" where
  \<open>linkEnter X rw nodeData =
     bindP (addAbsPrefix (fst rw) (LinkData.Destination nodeData)) (\<lambda>dest.
       let attrs = [''href="'' @ escLink X dest @ [CHR 0x22]] in
       if NoteID nodeData \<noteq> 0 then
         bindP (footnoteRef (FootnoteAnchorPrefix (opts (fst rw))) nodeData) (\<lambda>s. Inr (outs rw s))
       else
         bindP (appendLinkAttrs attrs (Flags (opts (fst rw))) dest) (\<lambda>attrs1.
           let attrs2 = (if length (LinkData.Title nodeData) > 0
                         then attrs1 @ [''title="'' @ EscapeHTML X (LinkData.Title nodeData) @ [CHR 0x22]]
                         else attrs1)
           in Inr (outTag rw ''<a'' attrs2)))\<close>

definition linkExit :: "'sr rw \<Rightarrow> LinkData \<Rightarrow> 'sr rw" where
  "linkExit rw nodeData = (if NoteID nodeData = 0 then outs rw ''</a>'' else rw)"

definition link_node :: "'sr Externals \<Rightarrow> 'sr rw \<Rightarrow> LinkData \<Rightarrow> bool \<Rightarrow> panic + 'sr rw" where
  "link_node X rw nodeData entering =
     (if needSkipLink (Flags (opts (fst rw))) (LinkData.Destination nodeData) then
        Inr (outOneOf rw entering ''<tt>'' ''</tt>'')
      else if entering then linkEnter X rw nodeData
      else Inr (linkExit rw nodeData))"

subsection \<open>Images\<close>

definition imageEnter :: "'sr Externals \<Rightarrow> 'sr rw \<Rightarrow> ImageData \<Rightarrow> panic + 'sr rw" where
  \<open>imageEnter X rw nodeData =
     bindP (addAbsPrefix (fst rw) (ImageData.Destination nodeData)) (\<lambda>dest.
       let rw1 = (if disableTags (fst rw) = 0
                  then outs (writeTo (outs rw ''<img src="'') (escLink X dest)) ''" alt="''
                  else rw)
       in Inr ((fst rw1)\<lparr>disableTags := disableTags (fst rw1) + 1\<rparr>, snd rw1))\<close>

definition imageExit :: "'sr Externals \<Rightarrow> 'sr rw \<Rightarrow> ImageData \<Rightarrow> 'sr rw" where
  \<open>imageExit X rw nodeData =
     (let rw1 = ((fst rw)\<lparr>disableTags := disableTags (fst rw) - 1\<rparr>, snd rw) in
      if disableTags (fst rw1) = 0 then
        (let rw2 = (case ImageData.Title nodeData of
                      Some title \<Rightarrow> writeTo (outs rw1 ''" title="'') (EscapeHTML X title)
                    | None \<Rightarrow> rw1)
         in outs rw2 ''" />'')
      else rw1)\<close>

definition image_node :: "'sr Externals \<Rightarrow> 'sr rw \<Rightarrow> ImageData \<Rightarrow> bool \<Rightarrow> panic + 'sr rw" where
  "image_node X rw nodeData entering =
     (if entering then imageEnter X rw nodeData else Inr (imageExit X rw nodeData))"

subsection \<open>Text, breaks, spans, code\<close>

definition text_node :: "'sr Externals \<Rightarrow> 'sr rw \<Rightarrow> Cursor \<Rightarrow> panic + 'sr rw" where
  "text_node X rw node =
     (if Flags (opts (fst rw)) AND Smartypants \<noteq> 0 then
        (case Process X (sr (fst rw)) (EscapeHTML X (Literal (Self node))) of
           (sr1, written) \<Rightarrow> Inr ((fst rw)\<lparr>sr := sr1\<rparr>, snd rw @ written))
      else
        (case Parent node of
           None \<Rightarrow> Inl NilDereference
         | Some parentData \<Rightarrow>
             if isLinkData parentData then Inr (writeTo rw (escLink X (Literal (Self node))))
             else Inr (writeTo rw (EscapeHTML X (Literal (Self node))))))"

definition hardBreak :: "'sr rw \<Rightarrow> 'sr rw" where
  "hardBreak rw = cr (outOneOf rw (Flags (opts (fst rw)) AND UseXHTML = 0) ''<br>'' ''<br />'')"

definition span :: "'sr rw \<Rightarrow> Cursor \<Rightarrow> 'sr rw" where
  "span rw node =
     (if Flags (opts (fst rw)) AND SkipHTML = 0 then out rw (Literal (Self node)) else rw)"

definition code :: "'sr Externals \<Rightarrow> 'sr rw \<Rightarrow> Cursor \<Rightarrow> 'sr rw" where
  "code X rw node =
     outs (writeTo (outs rw ''<code>'') (EscapeHTML X (Literal (Self node)))) ''</code>''"

definition htmlBlock :: "'sr rw \<Rightarrow> Cursor \<Rightarrow> 'sr rw" where
  "htmlBlock rw node =
     (if Flags (opts (fst rw)) AND SkipHTML \<noteq> 0 then rw
      else cr (out (cr rw) (Literal (Self node))))"

definition appendLanguageAttr :: "string list \<Rightarrow> string \<Rightarrow> string list" where
  \<open>appendLanguageAttr attrs info =
     (if length info = 0 then attrs
      else attrs @ [''class="language-''
                    @ takeWhile (\<lambda>c. c \<noteq> CHR 0x09 \<and> c \<noteq> CHR '' '') info @ [CHR 0x22]])\<close>

definition codeBlock :: "'sr Externals \<Rightarrow> 'sr rw \<Rightarrow> Cursor \<Rightarrow> CodeBlockData \<Rightarrow> panic + 'sr rw" where
  "codeBlock X rw node nodeData =
     (let attrs = appendLanguageAttr [] (Info nodeData);
          rw1 = outTag (outs (cr rw) ''<pre>'') ''<code'' attrs;
          rw2 = outs (outs (writeTo rw1 (EscapeHTML X (Literal (Self node)))) ''</code>'') ''</pre>''
      in case Parent node of
           None \<Rightarrow> Inl NilDereference
         | Some parentData \<Rightarrow> if \<not> isListItemData parentData then Inr (cr rw2) else Inr rw2)"

subsection \<open>Paragraphs\<close>

text \<open>
  skipParagraphTags reads \<open>node.Parent.Parent\<close>, which panics when the paragraph has no
  parent. It answers false when there is no grandparent or the grandparent is not a list.
\<close>

definition skipParagraphTags :: "Cursor \<Rightarrow> panic + bool" where
  "skipParagraphTags node =
     (case Ancestors node of
        [] \<Rightarrow> Inl NilDereference
      | [parent] \<Rightarrow> Inr False
      | parent # grandparent # _ \<Rightarrow>
          (case grandparent of
             ListData grandparentListData \<Rightarrow>
               (let isParentTerm = isListItemTerm parent;
                    tightOrTerm = (Tight grandparentListData \<or> isParentTerm)
                in Inr tightOrTerm)
           | _ \<Rightarrow> Inr False))"

definition paragraphEnter :: "'sr rw \<Rightarrow> Cursor \<Rightarrow> panic + 'sr rw" where
  "paragraphEnter rw node =
     (let rw1 = (case PrevData node of
                   None \<Rightarrow> rw
                 | Some prevData \<Rightarrow>
                     (case prevData of
                        HTMLBlockData \<Rightarrow> cr rw
                      | ListData _ \<Rightarrow> cr rw
                      | ParagraphData \<Rightarrow> cr rw
                      | HeadingData _ \<Rightarrow> cr rw
                      | CodeBlockData _ \<Rightarrow> cr rw
                      | BlockQuoteData \<Rightarrow> cr rw
                      | HorizontalRuleData \<Rightarrow> cr rw
                      | _ \<Rightarrow> rw))
      in case Parent node of
           None \<Rightarrow> Inl NilDereference
         | Some parentData \<Rightarrow>
             Inr (outs (if isBlockQuoteData parentData \<and> PrevData node = None then cr rw1 else rw1)
                       ''<p>''))"

definition paragraphExit :: "'sr rw \<Rightarrow> Cursor \<Rightarrow> panic + 'sr rw" where
  "paragraphExit rw node =
     (let rw1 = outs rw ''</p>'' in
      case Parent node of
        None \<Rightarrow> Inl NilDereference
      | Some parentData \<Rightarrow>
          if \<not> (isListItemData parentData \<and> NextData node = None) then Inr (cr rw1) else Inr rw1)"

definition paragraph_node :: "'sr rw \<Rightarrow> Cursor \<Rightarrow> bool \<Rightarrow> panic + 'sr rw" where
  "paragraph_node rw node entering =
     bindP (skipParagraphTags node) (\<lambda>skip.
       if skip then Inr rw
       else if entering then paragraphEnter rw node
       else paragraphExit rw node)"

subsection \<open>Headings and rules\<close>

definition headingEnter :: "'sr rw \<Rightarrow> HeadingData \<Rightarrow> 'sr rw" where
  \<open>headingEnter rw nodeData =
     (let attrs = (if IsTitleblock nodeData then [''class="title"''] else []) in
      if HeadingID nodeData \<noteq> [] then
        (case ensureUniqueHeadingID (fst rw) (HeadingID nodeData) of
           (r1, id0) \<Rightarrow>
             (let id1 = (if HeadingIDPrefix (opts r1) \<noteq> [] then HeadingIDPrefix (opts r1) @ id0
                         else id0);
                  id2 = (if HeadingIDSuffix (opts r1) \<noteq> [] then id1 @ HeadingIDSuffix (opts r1)
                         else id1);
                  attrID = ''id="'' @ id2 @ [CHR 0x22]
              in outTag (cr (r1, snd rw)) (headingOpenTagFromLevel (Level nodeData))
                        (attrs @ [attrID])))
      else outTag (cr rw) (headingOpenTagFromLevel (Level nodeData)) attrs)\<close>

definition headingExit :: "'sr rw \<Rightarrow> Cursor \<Rightarrow> HeadingData \<Rightarrow> panic + 'sr rw" where
  "headingExit rw node nodeData =
     (let rw1 = outs rw (headingCloseTagFromLevel (Level nodeData)) in
      case Parent node of
        None \<Rightarrow> Inl NilDereference
      | Some parentData \<Rightarrow>
          if \<not> (isListItemData parentData \<and> NextData node = None) then Inr (cr rw1) else Inr rw1)"

definition heading :: "'sr rw \<Rightarrow> Cursor \<Rightarrow> HeadingData \<Rightarrow> bool \<Rightarrow> panic + 'sr rw" where
  "heading rw node nodeData entering =
     (if entering then Inr (headingEnter rw nodeData) else headingExit rw node nodeData)"

definition horizontalRule :: "'sr rw \<Rightarrow> 'sr rw" where
  "horizontalRule rw = cr (outHRTag (cr rw))"

subsection \<open>Lists and list items\<close>

definition listEnter :: "'sr rw \<Rightarrow> Cursor \<Rightarrow> ListData \<Rightarrow> panic + 'sr rw" where
  \<open>listEnter rw node nodeData =
     (let rw1 = (if IsFootnotesList nodeData
                 then cr (outHRTag (outs rw ''\<newline><div class="footnotes">\<newline>\<newline>''))
                 else rw);
          rw2 = cr rw1
      in bindP (case Ancestors node of
                  [] \<Rightarrow> Inl NilDereference
                | parentData # rest \<Rightarrow>
                    if isListItemData parentData then
                      (case rest of
                         [] \<Rightarrow> Inl NilDereference
                       | grand # _ \<Rightarrow> if isListTight grand then Inr (cr rw2) else Inr rw2)
                    else Inr rw2)
           (\<lambda>rw3.
              let openTag0 = ''<ul'';
                  openTag1 = (if ListData.ListFlags nodeData AND ListTypeOrdered \<noteq> 0
                              then ''<ol'' else openTag0);
                  openTag = (if ListData.ListFlags nodeData AND ListTypeDefinition \<noteq> 0
                             then ''<dl'' else openTag1)
              in Inr (cr (outTag rw3 openTag []))))\<close>

definition listExit :: "'sr rw \<Rightarrow> Cursor \<Rightarrow> ListData \<Rightarrow> panic + 'sr rw" where
  \<open>listExit rw node nodeData =
     (let closeTag0 = ''</ul>'';
          closeTag1 = (if ListData.ListFlags nodeData AND ListTypeOrdered \<noteq> 0
                       then ''</ol>'' else closeTag0);
          closeTagS = (if ListData.ListFlags nodeData AND ListTypeDefinition \<noteq> 0
                       then ''</dl>'' else closeTag1);
          rw1 = outs rw closeTagS
      in case Parent node of
           None \<Rightarrow> Inl NilDereference
         | Some parentData \<Rightarrow>
             (let rw2 = (if isListItemData parentData \<and> NextData node \<noteq> None then cr rw1 else rw1);
                  rw3 = (if isDocumentData parentData \<or> isBlockQuoteData parentData then cr rw2
                         else rw2)
              in if IsFootnotesList nodeData then Inr (outs rw3 ''\<newline></div>\<newline>'')
                 else Inr rw3))\<close>

definition list_node :: "'sr rw \<Rightarrow> Cursor \<Rightarrow> ListData \<Rightarrow> bool \<Rightarrow> panic + 'sr rw" where
  "list_node rw node nodeData entering =
     (if entering then listEnter rw node nodeData else listExit rw node nodeData)"

text \<open>itemOpenCR asserts that the parent's data is a \<open>*ast.ListData\<close>; the assertion
  panics on any other data, and reading the data panics when there is no parent.\<close>

definition itemOpenCR :: "Cursor \<Rightarrow> panic + bool" where
  "itemOpenCR node =
     (if PrevData node = None then Inr False
      else (case Parent node of
              None \<Rightarrow> Inl NilDereference
            | Some parentData \<Rightarrow>
                (case parentData of
                   ListData ld \<Rightarrow>
                     Inr (\<not> Tight ld \<and> ListData.ListFlags ld AND ListTypeDefinition = 0)
                 | _ \<Rightarrow> Inl TypeAssertion)))"

definition listItemEnter :: "'sr rw \<Rightarrow> Cursor \<Rightarrow> ListItemData \<Rightarrow> panic + 'sr rw" where
  "listItemEnter rw node nodeData =
     bindP (itemOpenCR node) (\<lambda>openCR.
       let rw1 = (if openCR then cr rw else rw) in
       case RefLink nodeData of
         Some refLink \<Rightarrow>
           bindP (slugify refLink) (\<lambda>slug.
             Inr (outs rw1 (footnoteItem (FootnoteAnchorPrefix (opts (fst rw1))) slug)))
       | None \<Rightarrow>
           (let openTag0 = ''<li>'';
                openTag1 = (if ListItemData.ListFlags nodeData AND ListTypeDefinition \<noteq> 0
                            then ''<dd>'' else openTag0);
                openTag = (if ListItemData.ListFlags nodeData AND ListTypeTerm \<noteq> 0
                           then ''<dt>'' else openTag1)
            in Inr (outs rw1 openTag)))"

definition listItemExit :: "'sr rw \<Rightarrow> Cursor \<Rightarrow> ListItemData \<Rightarrow> panic + 'sr rw" where
  "listItemExit rw node nodeData =
     bindP (case RefLink nodeData of
              Some refLink \<Rightarrow>
                if Flags (opts (fst rw)) AND FootnoteReturnLinks \<noteq> 0 then
                  bindP (slugify refLink) (\<lambda>slug.
                    let pre = FootnoteAnchorPrefix (opts (fst rw));
                        returnLink = FootnoteReturnLinkContents (opts (fst rw));
                        s = footnoteReturnLink pre returnLink slug
                    in Inr (outs rw s))
                else Inr rw
            | None \<Rightarrow> Inr rw)
       (\<lambda>rw1.
          let closeTag0 = ''</li>'';
              closeTag1 = (if ListItemData.ListFlags nodeData AND ListTypeDefinition \<noteq> 0
                           then ''</dd>'' else closeTag0);
              closeTagS = (if ListItemData.ListFlags nodeData AND ListTypeTerm \<noteq> 0
                           then ''</dt>'' else closeTag1)
          in Inr (cr (outs rw1 closeTagS)))"

definition listItem :: "'sr rw \<Rightarrow> Cursor \<Rightarrow> ListItemData \<Rightarrow> bool \<Rightarrow> panic + 'sr rw" where
  "listItem rw node nodeData entering =
     (if entering then listItemEnter rw node nodeData else listItemExit rw node nodeData)"

subsection \<open>Tables\<close>

definition cellAlignment :: "CellAlignFlags \<Rightarrow> string" where
  "cellAlignment align =
     (case align of
        TableAlignmentLeft \<Rightarrow> ''left''
      | TableAlignmentRight \<Rightarrow> ''right''
      | TableAlignmentCenter \<Rightarrow> ''center''
      | _ \<Rightarrow> [])"

definition tableCell :: "'sr rw \<Rightarrow> Cursor \<Rightarrow> TableCellData \<Rightarrow> bool \<Rightarrow> 'sr rw" where
  \<open>tableCell rw node nodeData entering =
     (if \<not> entering then cr (outOneOf rw (IsHeader nodeData) ''</th>'' ''</td>'')
      else
        let openTag = (if IsHeader nodeData then ''<th'' else ''<td'');
            align = cellAlignment (Align nodeData);
            attrs = (if align \<noteq> [] then [''align="'' @ align @ [CHR 0x22]] else []);
            rw1 = (if PrevData node = None then cr rw else rw)
        in outTag rw1 openTag attrs)\<close>

definition tableBody :: "'sr rw \<Rightarrow> Cursor \<Rightarrow> bool \<Rightarrow> 'sr rw" where
  "tableBody rw node entering =
     (if entering then
        (let rw1 = outs (cr rw) ''<tbody>'' in
         if Children (Self node) = [] then cr rw1 else rw1)
      else cr (outs rw ''</tbody>''))"

subsection \<open>The dispatcher RenderNode\<close>

text \<open>The result of the per-kind renderer followed by \<open>return ast.GoToNext\<close>.\<close>

definition thenGoToNext :: "panic + 'sr rw \<Rightarrow> panic + ('sr rw \<times> WalkStatus)" where
  "thenGoToNext m = bindP m (\<lambda>rw. Inr (rw, GoToNext))"

definition RenderNode ::
  "'sr Externals \<Rightarrow> 'sr rw \<Rightarrow> Cursor \<Rightarrow> bool \<Rightarrow> panic + ('sr rw \<times> WalkStatus)" where
  "RenderNode X rw0 node entering =
     (let hooked = (case RenderNodeHook (opts (fst rw0)) of
                      None \<Rightarrow> (rw0, GoToNext, False)
                    | Some hook \<Rightarrow>
                        (case hook node entering of
                           (written, status, didHandle) \<Rightarrow> (writeTo rw0 written, status, didHandle)))
      in case hooked of
           (rw, status, didHandle) \<Rightarrow>
             if didHandle then Inr (rw, status)
             else
               (case Data (Self node) of
                  TextData \<Rightarrow> thenGoToNext (text_node X rw node)
                | SoftbreakData \<Rightarrow> Inr (cr rw, GoToNext)
                | HardbreakData \<Rightarrow> Inr (hardBreak rw, GoToNext)
                | EmphData \<Rightarrow> Inr (outOneOf rw entering ''<em>'' ''</em>'', GoToNext)
                | StrongData \<Rightarrow> Inr (outOneOf rw entering ''<strong>'' ''</strong>'', GoToNext)
                | DelData \<Rightarrow> Inr (outOneOf rw entering ''<del>'' ''</del>'', GoToNext)
                | BlockQuoteData \<Rightarrow>
                    Inr (outOneOfCr rw entering ''<blockquote>'' ''</blockquote>'', GoToNext)
                | LinkData nodeData \<Rightarrow> thenGoToNext (link_node X rw nodeData entering)
                | ImageData nodeData \<Rightarrow>
                    if Flags (opts (fst rw)) AND SkipImages \<noteq> 0 then Inr (rw, SkipChildren)
                    else thenGoToNext (image_node X rw nodeData entering)
                | CodeData \<Rightarrow> Inr (code X rw node, GoToNext)
                | CodeBlockData nodeData \<Rightarrow> thenGoToNext (codeBlock X rw node nodeData)
                | DocumentData \<Rightarrow> Inr (rw, GoToNext)
                | ParagraphData \<Rightarrow> thenGoToNext (paragraph_node rw node entering)
                | HTMLSpanData \<Rightarrow> Inr (span rw node, GoToNext)
                | HTMLBlockData \<Rightarrow> Inr (htmlBlock rw node, GoToNext)
                | HeadingData nodeData \<Rightarrow> thenGoToNext (heading rw node nodeData entering)
                | HorizontalRuleData \<Rightarrow> Inr (horizontalRule rw, GoToNext)
                | ListData nodeData \<Rightarrow> thenGoToNext (list_node rw node nodeData entering)
                | ListItemData nodeData \<Rightarrow> thenGoToNext (listItem rw node nodeData entering)
                | TableData \<Rightarrow> Inr (outOneOfCr rw entering ''<table>'' ''</table>'', GoToNext)
                | TableCellData nodeData \<Rightarrow> Inr (tableCell rw node nodeData entering, GoToNext)
                | TableHeadData \<Rightarrow> Inr (outOneOfCr rw entering ''<thead>'' ''</thead>'', GoToNext)
                | TableBodyData \<Rightarrow> Inr (tableBody rw node entering, GoToNext)
                | TableRowData \<Rightarrow> Inr (outOneOfCr rw entering ''<tr>'' ''</tr>'', GoToNext)
                | UnknownData \<Rightarrow> Inl UnknownNodeType))"

subsection \<open>The tree walk\<close>

text \<open>
  Modelled from the spec: the walker of package ast (\<open>Node.WalkFunc\<close>) is not among the
  sources. Following section 4.1 of the specification it visits every node in document
  order, a container kind twice (entering on descent, not entering on ascent) and a leaf
  kind once, and obeys the status the callback returns: continue, skip the children of
  this node, or end the whole walk. The container kinds are those whose renderer
  distinguishes entering from exiting, and the document. The callback may assign to the
  data of the node it visits (writeTOC does), so it returns the data as it leaves it, and
  the walk returns the tree as it leaves it, with a flag telling whether it was ended.
\<close>

definition isContainer :: "NodeData \<Rightarrow> bool" where
  "isContainer d =
     (case d of
        DocumentData \<Rightarrow> True | BlockQuoteData \<Rightarrow> True | ListData _ \<Rightarrow> True
      | ListItemData _ \<Rightarrow> True | ParagraphData \<Rightarrow> True | HeadingData _ \<Rightarrow> True
      | EmphData \<Rightarrow> True | StrongData \<Rightarrow> True | DelData \<Rightarrow> True | LinkData _ \<Rightarrow> True
      | ImageData _ \<Rightarrow> True | TableData \<Rightarrow> True | TableHeadData \<Rightarrow> True
      | TableBodyData \<Rightarrow> True | TableRowData \<Rightarrow> True | TableCellData _ \<Rightarrow> True
      | _ \<Rightarrow> False)"

type_synonym 's visitor = "'s \<Rightarrow> Cursor \<Rightarrow> bool \<Rightarrow> panic + ('s \<times> NodeData \<times> WalkStatus)"

definition nextData :: "Node list \<Rightarrow> NodeData option" where
  "nextData ns = (case ns of [] \<Rightarrow> None | n # _ \<Rightarrow> Some (Data n))"

fun walk :: "'s visitor \<Rightarrow> NodeData list \<Rightarrow> NodeData option \<Rightarrow> NodeData option \<Rightarrow> 's \<Rightarrow> Node
               \<Rightarrow> panic + ('s \<times> Node \<times> bool)"
  and walkChildren :: "'s visitor \<Rightarrow> NodeData list \<Rightarrow> NodeData option \<Rightarrow> 's \<Rightarrow> Node list
               \<Rightarrow> panic + ('s \<times> Node list \<times> bool)" where
  "walk visit anc prv nxt s (Node d lit cs) =
     (case visit s \<lparr>Self = Node d lit cs, Ancestors = anc, PrevData = prv, NextData = nxt\<rparr> True of
        Inl e \<Rightarrow> Inl e
      | Inr (s1, d1, status) \<Rightarrow>
          if \<not> isContainer d then Inr (s1, Node d1 lit cs, status = Terminate)
          else if status = Terminate then Inr (s1, Node d1 lit cs, True)
          else
            (case (if status = SkipChildren then Inr (s1, cs, False)
                   else walkChildren visit (d1 # anc) None s1 cs) of
               Inl e \<Rightarrow> Inl e
             | Inr (s2, cs2, ended) \<Rightarrow>
                 if ended then Inr (s2, Node d1 lit cs2, True)
                 else
                   (case visit s2 \<lparr>Self = Node d1 lit cs2, Ancestors = anc, PrevData = prv,
                                   NextData = nxt\<rparr> False of
                      Inl e \<Rightarrow> Inl e
                    | Inr (s3, d3, status3) \<Rightarrow> Inr (s3, Node d3 lit cs2, status3 = Terminate))))"
| "walkChildren visit anc prv s [] = Inr (s, [], False)"
| "walkChildren visit anc prv s (c # cs) =
     (case walk visit anc prv (nextData cs) s c of
        Inl e \<Rightarrow> Inl e
      | Inr (s1, c1, ended) \<Rightarrow>
          if ended then Inr (s1, c1 # cs, True)
          else
            (case walkChildren visit anc (Some (Data c1)) s1 cs of
               Inl e \<Rightarrow> Inl e
             | Inr (s2, cs2, ended2) \<Rightarrow> Inr (s2, c1 # cs2, ended2)))"

text \<open>Rendering a tree: the walk with RenderNode as its callback, which leaves the data of
  the nodes as they are.\<close>

definition renderVisit :: "'sr Externals \<Rightarrow> ('sr rw) visitor" where
  "renderVisit X rw node entering =
     bindP (RenderNode X rw node entering) (\<lambda>(rw1, status). Inr (rw1, Data (Self node), status))"

definition renderTree :: "'sr Externals \<Rightarrow> 'sr rw \<Rightarrow> Node \<Rightarrow> panic + 'sr rw" where
  "renderTree X rw doc =
     bindP (walk (renderVisit X) [] None None rw doc) (\<lambda>(rw1, doc1, ended). Inr rw1)"

subsection \<open>The table of contents\<close>







subsection \<open>Sample configuration for the worked examples\<close>

text \<open>
  An instance of the external functions in which the escaping functions and the
  punctuation engine copy their input, and the options of a renderer with every string
  empty, no flag set and no hook.
\<close>

definition copyExternals :: "unit Externals" where
  "copyExternals = \<lparr>EscapeHTML = (\<lambda>s. s), escLink = (\<lambda>s. s), Process = (\<lambda>u s. (u, s)),
                     NewSmartypantsRenderer = (\<lambda>flags. ())\<rparr>"

definition noOptions :: RendererOptions where
  "noOptions = \<lparr>AbsolutePrefix = [], FootnoteAnchorPrefix = [], FootnoteReturnLinkContents = [],
                 HeadingIDPrefix = [], HeadingIDSuffix = [], Title = [], CSS = [], Icon = [],
                 Flags = 0, RenderNodeHook = None\<rparr>"

definition withFlags :: "int \<Rightarrow> RendererOptions" where
  "withFlags flags = noOptions\<lparr>Flags := flags\<rparr>"

text \<open>A renderer whose registry already holds the ids \<open>a\<close> and \<open>a-1\<close>.\<close>

definition twoTaken :: "unit Renderer" where
  "twoTaken = (NewRenderer copyExternals noOptions)
                \<lparr>headingIDs := fmupd ''a-1'' 0 (fmupd ''a'' 0 fmempty)\<rparr>"

text \<open>Sample links and renderers: a link to \<open>javascript:x\<close> with a title, a renderer in
  safe-link mode outside and inside the alt text of an image, and an absolute link.\<close>

definition jsLink :: LinkData where
  "jsLink = \<lparr>LinkData.Destination = ''javascript:x'', LinkData.Title = ''t'', NoteID = 0\<rparr>"

definition safeRenderer :: "unit Renderer" where
  "safeRenderer = NewRenderer copyExternals (withFlags Safelink)"

definition safeRendererInAlt :: "unit Renderer" where
  "safeRendererInAlt = safeRenderer\<lparr>disableTags := 1\<rparr>"


definition emptyLink :: LinkData where
  "emptyLink = \<lparr>LinkData.Destination = [], LinkData.Title = [], NoteID = 0\<rparr>"

text \<open>Sample trees: a paragraph holding an image whose alt text holds the link to
  \<open>javascript:x\<close>, and one holding an image nested in the alt text of another.\<close>

definition textNode :: "string \<Rightarrow> Node" where
  "textNode s = Node TextData s []"

definition imageOf :: "string \<Rightarrow> Node list \<Rightarrow> Node" where
  "imageOf dest alt =
     Node (ImageData \<lparr>ImageData.Destination = dest, ImageData.Title = None\<rparr>) [] alt"

definition docOf :: "Node list \<Rightarrow> Node" where
  "docOf blocks = Node DocumentData [] blocks"

definition unsafeLinkInAlt :: Node where
  "unsafeLinkInAlt =
     docOf [Node ParagraphData [] [imageOf ''a.png'' [Node (LinkData jsLink) [] [textNode ''label'']]]]"


definition allLinkFlags :: "unit Renderer" where
  "allLinkFlags =
     NewRenderer copyExternals (withFlags (NofollowLinks + NoreferrerLinks + HrefTargetBlank))"

definition titledLink :: LinkData where
  "titledLink = \<lparr>LinkData.Destination = ''http://a1'', LinkData.Title = ''t'', NoteID = 0\<rparr>"

subsection \<open>The markup of an image, in the words of the claims\<close>



definition picture :: ImageData where
  "picture = \<lparr>ImageData.Destination = ''a.png'', ImageData.Title = None\<rparr>"

definition plainRenderer :: "unit Renderer" where
  "plainRenderer = NewRenderer copyExternals noOptions"

subsection \<open>Vocabulary for the properties of slugify and RenderNode\<close>

text \<open>A byte string of alphanumeric bytes and dashes with no two dashes in a row: the shape
  of the buffer \<open>out\<close> that the first loop of slugify builds.\<close>

fun collapsed :: "string \<Rightarrow> bool" where
  "collapsed [] = True"
| "collapsed [c] = (isAlnum c \<or> c = CHR ''-'')"
| "collapsed (c # d # rest) =
     ((isAlnum c \<or> c = CHR ''-'') \<and> \<not> (c = CHR ''-'' \<and> d = CHR ''-'') \<and> collapsed (d # rest))"

text \<open>Whether the hook of the options intercepts the node: it is set and reports that it
  handled the node.\<close>

definition hookHandles :: "'sr Renderer \<Rightarrow> Cursor \<Rightarrow> bool \<Rightarrow> bool" where
  "hookHandles r node entering =
     (case RenderNodeHook (opts r) of
        None \<Rightarrow> False
      | Some hook \<Rightarrow> (case hook node entering of (written, status, didHandle) \<Rightarrow> didHandle))"

text \<open>The bytes the hook of the options writes for the node: none when no hook is set.\<close>

definition hookWritten :: "'sr Renderer \<Rightarrow> Cursor \<Rightarrow> bool \<Rightarrow> string" where
  "hookWritten r node entering =
     (case RenderNodeHook (opts r) of
        None \<Rightarrow> []
      | Some hook \<Rightarrow> (case hook node entering of (written, status, didHandle) \<Rightarrow> written))"

text \<open>The status RenderNode returns for a node of a kind it knows: skip the children for
  an image when images are skipped, go to the next node otherwise.\<close>

definition knownKindStatus :: "'sr Renderer \<Rightarrow> NodeData \<Rightarrow> WalkStatus" where
  "knownKindStatus r d =
     (case d of
        ImageData _ \<Rightarrow> if Flags (opts r) AND SkipImages \<noteq> 0 then SkipChildren else GoToNext
      | _ \<Rightarrow> GoToNext)"

text \<open>
  What the renderers take for granted about the place of a node in the tree, which the
  parser provides: a text, code block, paragraph, heading or list has a parent; a list
  whose parent is a list item has a grandparent; a list item that has a previous sibling
  has a list as its parent; the destination of a link or an image is not empty.
\<close>

definition wellPlaced :: "Cursor \<Rightarrow> bool" where
  "wellPlaced node =
     (case Data (Self node) of
        TextData \<Rightarrow> Ancestors node \<noteq> []
      | CodeBlockData _ \<Rightarrow> Ancestors node \<noteq> []
      | ParagraphData \<Rightarrow> Ancestors node \<noteq> []
      | HeadingData _ \<Rightarrow> Ancestors node \<noteq> []
      | ListData _ \<Rightarrow>
          (case Ancestors node of
             [] \<Rightarrow> False
           | parentData # rest \<Rightarrow> \<not> isListItemData parentData \<or> rest \<noteq> [])
      | ListItemData _ \<Rightarrow>
          PrevData node = None \<or> (case Ancestors node of [] \<Rightarrow> False | parentData # _ \<Rightarrow> isListData parentData)
      | LinkData nodeData \<Rightarrow> LinkData.Destination nodeData \<noteq> []
      | ImageData nodeData \<Rightarrow> ImageData.Destination nodeData \<noteq> []
      | _ \<Rightarrow> True)"

text \<open>A renderer that skips images, and an image as the first node of a paragraph.\<close>

definition skippingImages :: "unit Renderer" where
  "skippingImages = NewRenderer copyExternals (withFlags SkipImages)"

definition pictureInParagraph :: Cursor where
  "pictureInParagraph =
     \<lparr>Self = Node (ImageData picture) [] [], Ancestors = [ParagraphData, DocumentData],
      PrevData = None, NextData = None\<rparr>"

definition strayNode :: Cursor where
  "strayNode = \<lparr>Self = Node UnknownData [] [], Ancestors = [DocumentData],
                 PrevData = None, NextData = None\<rparr>"

subsection \<open>Vocabulary for the table of contents\<close>

















subsection \<open>Vocabulary for paragraphs in lists\<close>

text \<open>
  The condition under which the claims say a paragraph renders bare, read off the tree:
  the paragraph's grandparent is a list, and that list is tight or the paragraph's parent
  is a list item flagged as a term.
\<close>

definition rendersBare :: "Cursor \<Rightarrow> bool" where
  "rendersBare node =
     (case Ancestors node of
        parentData # ListData listData # _ \<Rightarrow> Tight listData \<or> isListItemTerm parentData
      | _ \<Rightarrow> False)"

text \<open>A paragraph holding one text, a list item, a list, and the plain list (no flag set
  on the list or its items) whose items hold such paragraphs only.\<close>

definition paragraphOf :: "string \<Rightarrow> Node" where
  "paragraphOf t = Node ParagraphData [] [Node TextData t []]"

definition itemOf :: "int \<Rightarrow> Node list \<Rightarrow> Node" where
  "itemOf flags children =
     Node (ListItemData \<lparr>ListItemData.ListFlags = flags, RefLink = None\<rparr>) [] children"

definition listOf :: "int \<Rightarrow> bool \<Rightarrow> Node list \<Rightarrow> Node" where
  "listOf flags tight items =
     Node (ListData \<lparr>ListData.ListFlags = flags, Tight = tight, IsFootnotesList = False\<rparr>) [] items"

definition plainList :: "bool \<Rightarrow> string list list \<Rightarrow> Node" where
  "plainList tight items = listOf 0 tight (map (\<lambda>ps. itemOf 0 (map paragraphOf ps)) items)"

text \<open>
  The bytes of the items of a plain list, each item given by the texts of its paragraphs.
  Tight, an item is its texts between \<open><li>\<close> and \<open></li>\<close>. Loose, each text stands in
  \<open><p>\<close> and \<open></p>\<close>, the paragraphs of an item are an empty line apart, and every item
  but the first follows an empty line.
\<close>

definition tightItems :: "'sr Externals \<Rightarrow> string list list \<Rightarrow> string" where
  "tightItems X items =
     concat (map (\<lambda>ps. ''<li>'' @ concat (map (EscapeHTML X) ps) @ ''</li>\<newline>'') items)"

fun looseParagraphs :: "'sr Externals \<Rightarrow> bool \<Rightarrow> string list \<Rightarrow> string" where
  "looseParagraphs X isFirst [] = []"
| "looseParagraphs X isFirst (t # ts) =
     (if isFirst then [] else ''\<newline>'')
     @ ''<p>'' @ EscapeHTML X t @ ''</p>''
     @ (if ts = [] then [] else ''\<newline>'')
     @ looseParagraphs X False ts"

fun looseItems :: "'sr Externals \<Rightarrow> bool \<Rightarrow> string list list \<Rightarrow> string" where
  "looseItems X isFirst [] = []"
| "looseItems X isFirst (ps # items) =
     (if isFirst then [] else ''\<newline>'')
     @ ''<li>'' @ looseParagraphs X True ps @ ''</li>\<newline>'' @ looseItems X False items"

text \<open>A loose definition list of a term and its definition, each holding a paragraph, and
  a paragraph directly under the document.\<close>

definition looseDefinitionList :: Node where
  "looseDefinitionList =
     docOf [listOf ListTypeDefinition False
              [itemOf (ListTypeDefinition + ListTypeTerm) [paragraphOf ''t''],
               itemOf ListTypeDefinition [paragraphOf ''d'']]]"

definition topParagraph :: Cursor where
  "topParagraph = \<lparr>Self = paragraphOf ''x'', Ancestors = [DocumentData], PrevData = None,
                    NextData = None\<rparr>"

text \<open>The first paragraph of the only item of a plain list under the document.\<close>

definition paragraphIn :: "bool \<Rightarrow> Cursor" where
  "paragraphIn tight =
     \<lparr>Self = paragraphOf ''a'',
      Ancestors = [ListItemData \<lparr>ListItemData.ListFlags = 0, RefLink = None\<rparr>,
                   ListData \<lparr>ListData.ListFlags = 0, Tight = tight, IsFootnotesList = False\<rparr>,
                   DocumentData],
      PrevData = None, NextData = None\<rparr>"

text \<open>A paragraph whose parent is a term item that has no list above it.\<close>

definition termUnderDocument :: Cursor where
  "termUnderDocument =
     \<lparr>Self = paragraphOf ''t'',
      Ancestors = [ListItemData \<lparr>ListItemData.ListFlags = ListTypeTerm, RefLink = None\<rparr>,
                   DocumentData],
      PrevData = None, NextData = None\<rparr>"

section \<open>Verified properties\<close>

subsection \<open>isSafeLink\<close>

lemma path_cond:
  "(length link \<ge> length p \<and> take (length p) link = p
      \<and> (length link = length p \<or> isAlnum (link ! length p)))
   \<longleftrightarrow> (link = p \<or> (\<exists>c rest. link = p @ c # rest \<and> isAlnum c))"
proof
  assume h: "length link \<ge> length p \<and> take (length p) link = p
      \<and> (length link = length p \<or> isAlnum (link ! length p))"
  show "link = p \<or> (\<exists>c rest. link = p @ c # rest \<and> isAlnum c)"
  proof (cases "length link = length p")
    case True
    with h show ?thesis by (metis take_all order_refl)
  next
    case False
    with h have al: "isAlnum (link ! length p)" and lt: "length p < length link" by auto
    have "link = take (length p) link @ drop (length p) link" by simp
    also have "drop (length p) link = link ! length p # drop (Suc (length p)) link"
      using lt by (simp add: Cons_nth_drop_Suc)
    finally have "link = p @ link ! length p # drop (Suc (length p)) link"
      using h by simp
    with al show ?thesis by blast
  qed
next
  assume "link = p \<or> (\<exists>c rest. link = p @ c # rest \<and> isAlnum c)"
  then show "length link \<ge> length p \<and> take (length p) link = p
      \<and> (length link = length p \<or> isAlnum (link ! length p))"
    by (auto simp: nth_append)
qed

lemma uri_cond:
  "(length link > length s \<and> ToLower (take (length s) link) = s \<and> isAlnum (link ! length s))
   \<longleftrightarrow> (\<exists>pre c rest. link = pre @ c # rest \<and> ToLower pre = s \<and> isAlnum c)"
proof
  assume h: "length link > length s \<and> ToLower (take (length s) link) = s \<and> isAlnum (link ! length s)"
  have "link = take (length s) link @ drop (length s) link" by simp
  also have "drop (length s) link = link ! length s # drop (Suc (length s)) link"
    using h by (simp add: Cons_nth_drop_Suc)
  finally have "link = take (length s) link @ link ! length s # drop (Suc (length s)) link" .
  with h show "\<exists>pre c rest. link = pre @ c # rest \<and> ToLower pre = s \<and> isAlnum c"
    by blast
next
  assume "\<exists>pre c rest. link = pre @ c # rest \<and> ToLower pre = s \<and> isAlnum c"
  then obtain pre c rest where l: "link = pre @ c # rest" and t: "ToLower pre = s" and a: "isAlnum c"
    by blast
  from t have len: "length pre = length s" by (auto simp: ToLower_def)
  show "length link > length s \<and> ToLower (take (length s) link) = s \<and> isAlnum (link ! length s)"
    using l t a len by (simp add: nth_append)
qed

lemma safePathLoop_ex:
  "safePathLoop link ps \<longleftrightarrow>
     (\<exists>p \<in> set ps. length link \<ge> length p \<and> take (length p) link = p
        \<and> (length link = length p \<or> isAlnum (link ! length p)))"
  by (induction ps) auto

lemma safeUriLoop_ex:
  "safeUriLoop link ss \<longleftrightarrow>
     (\<exists>s \<in> set ss. length link > length s \<and> ToLower (take (length s) link) = s
        \<and> isAlnum (link ! length s))"
  by (induction ss) auto

lemma isSafeLink_eq_spec: "isSafeLink link = isSafeLink_spec link"
proof -
  have "isSafeLink link \<longleftrightarrow> (safePathLoop link validPaths \<or> safeUriLoop link validUris)"
    by (simp add: isSafeLink_def)
  also have "\<dots> \<longleftrightarrow>
      ((\<exists>p \<in> set validPaths. link = p \<or> (\<exists>c rest. link = p @ c # rest \<and> isAlnum c))
      \<or> (\<exists>s \<in> set validUris. \<exists>pre c rest. link = pre @ c # rest \<and> ToLower pre = s \<and> isAlnum c))"
    unfolding safePathLoop_ex safeUriLoop_ex path_cond uri_cond ..
  also have "\<dots> \<longleftrightarrow> isSafeLink_spec link"
    unfolding isSafeLink_spec_def validPaths_def validUris_def by simp
  finally show ?thesis .
qed

text \<open>
  C3 (as amended). isSafeLink accepts \<open>/path\<close>, rejects \<open>javascript:alert(1)\<close>, accepts
  \<open>http://a\<close> (the byte \<open>a\<close> after the scheme is alphanumeric) and \<open>http://a1\<close>, and rejects
  \<open>http://\<close>, where nothing follows the scheme. In general it accepts a destination if and
  only if the destination is a relative-path entry (\<open>/\<close>, \<open>./\<close>, \<open>../\<close>) either exactly or
  followed by an ASCII alphanumeric byte, or starts with a scheme entry (\<open>http://\<close>,
  \<open>https://\<close>, \<open>ftp://\<close>, \<open>mailto://\<close>) in any letter case followed by an ASCII
  alphanumeric byte.
\<close>

theorem isSafeLink_accepts:
  "isSafeLink ''/path'' \<and> \<not> isSafeLink ''javascript:alert(1)'' \<and> isSafeLink ''http://a''
   \<and> \<not> isSafeLink ''http://'' \<and> isSafeLink ''http://a1''
   \<and> (\<forall>link. isSafeLink link = isSafeLink_spec link)"
proof -
  have "isSafeLink ''/path''" by code_simp
  moreover have "\<not> isSafeLink ''javascript:alert(1)''" by code_simp
  moreover have "isSafeLink ''http://a''" by code_simp
  moreover have "\<not> isSafeLink ''http://''" by code_simp
  moreover have "isSafeLink ''http://a1''" by code_simp
  ultimately show ?thesis using isSafeLink_eq_spec by blast
qed

text \<open>
  C3 as stated says that isSafeLink returns false for \<open>http://a\<close>. It returns true: the
  link is longer than the prefix \<open>http://\<close>, starts with it, and the next byte is a letter.
\<close>

theorem isSafeLink_http_a_accepted: "\<not> (isSafeLink ''http://a'' = False)"
  by code_simp

subsection \<open>The heading-ID registry\<close>

lemma headingIDLoop_dom: "fmdom (fst (headingIDLoop m ident)) = fmdom m"
proof (induction m ident rule: headingIDLoop.induct)
  case (1 m ident)
  show ?case
  proof (cases "fmlookup m ident")
    case None
    then show ?thesis by (simp add: headingIDLoop.simps[of m ident])
  next
    case (Some count)
    then have dom: "finsert ident (fmdom m) = fmdom m"
      by (auto simp: fmdomI)
    show ?thesis
    proof (cases "fmlookup m (ident @ ''-'' @ Itoa (count + 1))")
      case None
      with Some "1.IH"(1)[OF Some refl None] dom show ?thesis
        by (simp add: headingIDLoop.simps[of m ident])
    next
      case (Some c1)
      with \<open>fmlookup m ident = Some count\<close> "1.IH"(2)[OF \<open>fmlookup m ident = Some count\<close> refl Some]
      show ?thesis by (simp add: headingIDLoop.simps[of m ident])
    qed
  qed
qed

lemma headingIDLoop_unregistered:
  "fmlookup (fst (headingIDLoop m ident)) (snd (headingIDLoop m ident)) = None"
proof (induction m ident rule: headingIDLoop.induct)
  case (1 m ident)
  show ?case
  proof (cases "fmlookup m ident")
    case None
    then show ?thesis by (simp add: headingIDLoop.simps[of m ident])
  next
    case (Some count)
    show ?thesis
    proof (cases "fmlookup m (ident @ ''-'' @ Itoa (count + 1))")
      case None
      with Some "1.IH"(1)[OF Some refl None] show ?thesis
        by (simp add: headingIDLoop.simps[of m ident])
    next
      case (Some c1)
      with \<open>fmlookup m ident = Some count\<close> "1.IH"(2)[OF \<open>fmlookup m ident = Some count\<close> refl Some]
      show ?thesis by (simp add: headingIDLoop.simps[of m ident])
    qed
  qed
qed

lemma headingIDLoop_new: "fmlookup m (snd (headingIDLoop m ident)) = None"
proof -
  have "snd (headingIDLoop m ident) |\<notin>| fmdom (fst (headingIDLoop m ident))"
    using headingIDLoop_unregistered[of m ident] by (simp add: fmdom_notI)
  then have "snd (headingIDLoop m ident) |\<notin>| fmdom m"
    by (simp add: headingIDLoop_dom)
  then show ?thesis
    by (simp add: fmdom_notD)
qed

lemma headingIDLoop_fallback:
  assumes "fmlookup m ident = Some count"
    and "fmlookup m (ident @ ''-'' @ Itoa (count + 1)) = Some c1"
  shows "headingIDLoop m ident = headingIDLoop m (ident @ ''-1'')"
  using assms by (simp add: headingIDLoop.simps[of m ident])

text \<open>
  C2 (as amended). When ensureUniqueHeadingID is called with a candidate id that is
  registered and the probe \<open>candidate-{count+1}\<close> is registered too, it appends \<open>-1\<close> to
  the candidate and goes round its loop again with that id as the candidate: the call
  gives what a call with \<open>candidate-1\<close> gives. The id it returns was not registered
  before the call and is registered with count 0 after it; it is \<open>candidate-1\<close> exactly
  when \<open>candidate-1\<close> was not registered before the call.
\<close>

theorem ensureUniqueHeadingID_fallback_continues:
  assumes "fmlookup (headingIDs r) ident = Some count"
    and "fmlookup (headingIDs r) (ident @ ''-'' @ Itoa (count + 1)) = Some c1"
  shows "ensureUniqueHeadingID r ident = ensureUniqueHeadingID r (ident @ ''-1'')
       \<and> fmlookup (headingIDs r) (snd (ensureUniqueHeadingID r ident)) = None
       \<and> fmlookup (headingIDs (fst (ensureUniqueHeadingID r ident)))
            (snd (ensureUniqueHeadingID r ident)) = Some 0
       \<and> (snd (ensureUniqueHeadingID r ident) = ident @ ''-1''
            \<longleftrightarrow> fmlookup (headingIDs r) (ident @ ''-1'') = None)"
proof -
  have loop: "headingIDLoop (headingIDs r) ident = headingIDLoop (headingIDs r) (ident @ ''-1'')"
    using assms by (rule headingIDLoop_fallback)
  have res: "snd (ensureUniqueHeadingID r ident) = snd (headingIDLoop (headingIDs r) ident)" for ident
    by (simp add: ensureUniqueHeadingID_def split: prod.splits)
  have c1: "ensureUniqueHeadingID r ident = ensureUniqueHeadingID r (ident @ ''-1'')"
    by (simp add: ensureUniqueHeadingID_def loop)
  have c2: "fmlookup (headingIDs r) (snd (ensureUniqueHeadingID r ident)) = None"
    unfolding res by (rule headingIDLoop_new)
  have c3: "fmlookup (headingIDs (fst (ensureUniqueHeadingID r ident)))
            (snd (ensureUniqueHeadingID r ident)) = Some 0"
  proof -
    obtain m1 i1 where l: "headingIDLoop (headingIDs r) ident = (m1, i1)"
      by (cases "headingIDLoop (headingIDs r) ident")
    with headingIDLoop_unregistered[of "headingIDs r" ident] have "fmlookup m1 i1 = None"
      by simp
    with l show ?thesis
      by (simp add: ensureUniqueHeadingID_def)
  qed
  have c4: "snd (ensureUniqueHeadingID r ident) = ident @ ''-1''
            \<longleftrightarrow> fmlookup (headingIDs r) (ident @ ''-1'') = None"
  proof
    assume "snd (ensureUniqueHeadingID r ident) = ident @ ''-1''"
    with c2 show "fmlookup (headingIDs r) (ident @ ''-1'') = None" by simp
  next
    assume "fmlookup (headingIDs r) (ident @ ''-1'') = None"
    then have "headingIDLoop (headingIDs r) (ident @ ''-1'') = (headingIDs r, ident @ ''-1'')"
      by (simp add: headingIDLoop.simps[of _ "ident @ ''-1''"])
    then show "snd (ensureUniqueHeadingID r ident) = ident @ ''-1''"
      unfolding res loop by simp
  qed
  from c1 c2 c3 c4 show ?thesis by blast
qed

theorem ensureUniqueHeadingID_fallback_witness:
  "ensureUniqueHeadingID twoTaken ''a'' = ensureUniqueHeadingID twoTaken (''a'' @ ''-1'')
   \<and> fmlookup (headingIDs twoTaken) (snd (ensureUniqueHeadingID twoTaken ''a'')) = None
   \<and> fmlookup (headingIDs (fst (ensureUniqueHeadingID twoTaken ''a'')))
        (snd (ensureUniqueHeadingID twoTaken ''a'')) = Some 0
   \<and> (snd (ensureUniqueHeadingID twoTaken ''a'') = ''a'' @ ''-1''
        \<longleftrightarrow> fmlookup (headingIDs twoTaken) (''a'' @ ''-1'') = None)"
proof -
  have a: "fmlookup (headingIDs twoTaken) ''a'' = Some 0"
    by (simp add: twoTaken_def)
  have b: "fmlookup (headingIDs twoTaken) (''a'' @ ''-'' @ Itoa (0 + 1)) = Some 0"
    by (simp add: twoTaken_def Itoa_def)
  show ?thesis
    by (rule ensureUniqueHeadingID_fallback_continues[OF a b])
qed

text \<open>
  C2 as stated says that the function returns \<open>candidate-1\<close> without looping further even
  when that id is registered. With \<open>a\<close> and \<open>a-1\<close> registered, the call for \<open>a\<close> returns
  \<open>a-1-1\<close>, not \<open>a-1\<close>.
\<close>

theorem ensureUniqueHeadingID_loops_further:
  "snd (ensureUniqueHeadingID twoTaken ''a'') = ''a-1-1''
   \<and> snd (ensureUniqueHeadingID twoTaken ''a'') \<noteq> ''a'' @ ''-1''"
  by (simp add: ensureUniqueHeadingID_def twoTaken_def Itoa_def headingIDLoop.simps)

subsection \<open>slugify\<close>

lemma isAlnum_not_dash: "isAlnum c \<Longrightarrow> c \<noteq> CHR ''-''"
  by (auto simp: isAlnum_def isLetter_def)

lemma collapsed_snoc:
  assumes "collapsed xs" and "isAlnum c \<or> c = CHR ''-''"
    and "c = CHR ''-'' \<Longrightarrow> xs = [] \<or> last xs \<noteq> CHR ''-''"
  shows "collapsed (xs @ [c])"
  using assms by (induction xs rule: collapsed.induct) auto

lemma slugBuild_collapsed:
  assumes "collapsed outb" and "symf \<longleftrightarrow> (outb \<noteq> [] \<and> last outb = CHR ''-'')"
  shows "collapsed (slugBuild outb symf inp)"
  using assms
proof (induction inp arbitrary: outb symf)
  case Nil
  then show ?case by simp
next
  case (Cons ch rest)
  show ?case
  proof (cases "isAlnum ch")
    case True
    have "collapsed (outb @ [ch])"
      using Cons.prems(1) True isAlnum_not_dash by (intro collapsed_snoc) auto
    moreover have "False \<longleftrightarrow> (outb @ [ch] \<noteq> [] \<and> last (outb @ [ch]) = CHR ''-'')"
      using True isAlnum_not_dash by auto
    ultimately show ?thesis
      using True Cons.IH[of "outb @ [ch]" False] by simp
  next
    case False
    show ?thesis
    proof (cases symf)
      case True
      with False Cons.IH[of outb symf] Cons.prems show ?thesis by simp
    next
      case nsym: False
      have "collapsed (outb @ [CHR ''-''])"
        using Cons.prems nsym by (intro collapsed_snoc) auto
      then show ?thesis
        using False nsym Cons.IH[of "outb @ [CHR ''-'']" True] by simp
    qed
  qed
qed

lemma slugLead_collapsed_le1: "collapsed outb \<Longrightarrow> slugLead outb 0 0 \<le> 1"
proof (cases outb)
  case Nil
  then show ?thesis by simp
next
  case (Cons c rest)
  assume col: "collapsed outb"
  show ?thesis
  proof (cases rest)
    case Nil
    with Cons show ?thesis by simp
  next
    case (Cons d rest')
    with \<open>outb = c # rest\<close> col show ?thesis by auto
  qed
qed

lemma slugify_total: "\<exists>s. slugify inp = Inr s"
proof (cases "length inp = 0")
  case True
  then show ?thesis by (simp add: slugify_def)
next
  case False
  have "collapsed (slugBuild [] False inp)"
    by (rule slugBuild_collapsed) auto
  then have "slugLead (slugBuild [] False inp) 0 0 \<le> 1"
    by (rule slugLead_collapsed_le1)
  then show ?thesis
    using False by (simp add: slugify_def Let_def)
qed

text \<open>
  C5. The claim is that slugify is idempotent and that its result never starts or ends
  with \<open>-\<close> unless it is empty. On an input that is not empty and holds no alphanumeric
  byte, such as \<open>!\<close>, the buffer \<open>out\<close> is the single byte \<open>-\<close>; neither trimming loop
  removes it, and the result is \<open>-\<close>: not empty, starting and ending with \<open>-\<close>.
\<close>

theorem slugify_only_symbols: "slugify ''!'' = Inr ''-''"
  by (simp add: slugify_def isAlnum_def isLetter_def)

subsection \<open>Links that fail the skip/safety policy\<close>

lemma strip_tt: "htmlTagRe_ReplaceAll ''<tt>'' = []"
  by code_simp

lemma strip_tt_close: "htmlTagRe_ReplaceAll ''</tt>'' = []"
  by code_simp

text \<open>
  C1 (as amended). For a Link node whose destination fails the skip/safety policy
  (needSkipLink holds), rendering the node never fails and writes exactly this: when the
  raw-tag suppression depth is 0, \<open><tt>\<close> on entering and \<open></tt>\<close> on exiting; when the
  depth is above 0 (the link stands in the alt text of an image), nothing, because the
  writes go through \<open>outs\<close>, which removes the tag. In both cases nothing else is written,
  so no anchor and no href, whatever the title, the note id and the link flags are.
\<close>

theorem link_unsafe_renders_tt:
  assumes "needSkipLink (Flags (opts r)) (LinkData.Destination nodeData)"
  shows "link_node X (r, w) nodeData entering =
           Inr (r\<lparr>lastOutputLen := (if entering then 4 else 5)\<rparr>,
                w @ (if disableTags r > 0 then []
                     else if entering then ''<tt>'' else ''</tt>''))"
  using assms by (simp add: link_node_def outOneOf_def strip_tt strip_tt_close)

theorem link_unsafe_renders_tt_witness:
  "needSkipLink (Flags (opts safeRenderer)) (LinkData.Destination jsLink)
   \<and> link_node copyExternals (safeRenderer, []) jsLink True =
         Inr (safeRenderer\<lparr>lastOutputLen := 4\<rparr>, ''<tt>'')
   \<and> link_node copyExternals (safeRenderer, ''<tt>label'') jsLink False =
         Inr (safeRenderer\<lparr>lastOutputLen := 5\<rparr>, ''<tt>label</tt>'')"
proof -
  have skip: "needSkipLink (Flags (opts safeRenderer)) (LinkData.Destination jsLink)"
    by code_simp
  have tags: "\<not> disableTags safeRenderer > 0"
    by (simp add: safeRenderer_def NewRenderer_def Let_def)
  show ?thesis
    using skip tags link_unsafe_renders_tt[OF skip, of copyExternals "[]" True]
      link_unsafe_renders_tt[OF skip, of copyExternals "''<tt>label''" False]
    by simp
qed

text \<open>
  C1 as stated says that every such node emits \<open><tt>\<close> on entering. In safe-link mode, the
  link to \<open>javascript:x\<close> entered at suppression depth 1 writes nothing; a document reaches
  that state with the link in the alt text of an image, and renders without any \<open>tt\<close> tag.
\<close>

theorem link_unsafe_in_alt_text_emits_nothing:
  \<open>needSkipLink (Flags (opts safeRendererInAlt)) (LinkData.Destination jsLink)
   \<and> map_sum id snd (link_node copyExternals (safeRendererInAlt, []) jsLink True) = Inr []
   \<and> map_sum id snd (link_node copyExternals (safeRendererInAlt, []) jsLink True) \<noteq> Inr ''<tt>''
   \<and> map_sum id snd (renderTree copyExternals (safeRenderer, []) unsafeLinkInAlt)
         = Inr ''<p><img src="a.png" alt="label" /></p>\<newline>''\<close>
proof -
  have skip: "needSkipLink (Flags (opts safeRendererInAlt)) (LinkData.Destination jsLink)"
    by code_simp
  have tags: "disableTags safeRendererInAlt > 0"
    by (simp add: safeRendererInAlt_def)
  have tree: \<open>map_sum id snd (renderTree copyExternals (safeRenderer, []) unsafeLinkInAlt)
         = Inr ''<p><img src="a.png" alt="label" /></p>\<newline>''\<close>
    by code_simp
  show ?thesis
    using skip tags tree by (simp add: link_node_def outOneOf_def strip_tt)
qed

subsection \<open>The attributes of an anchor\<close>

text \<open>
  C6 (as amended). For a Link node that passes the skip/safety policy and is not a footnote,
  entering the node writes one \<open><a\<close> tag whose attributes are, in this order: href; then,
  only when the destination written to href (the destination after the absolute-prefix
  rewriting) is not relative, the optional \<open>target="_blank"\<close> and after it the optional rel
  attribute, whose value holds \<open>nofollow\<close> and \<open>noreferrer\<close> in that order, each under its
  own flag; then the optional title.
\<close>

theorem linkEnter_attribute_order:
  assumes "\<not> needSkipLink (Flags (opts r)) (LinkData.Destination nodeData)"
    and "NoteID nodeData = 0"
    and "addAbsPrefix r (LinkData.Destination nodeData) = Inr dest"
    and "isRelativeLink dest = Inr rel"
  shows \<open>link_node X (r, w) nodeData True =
     Inr (r\<lparr>lastOutputLen := 1\<rparr>,
          w @ ''<a '' @
          Join ([''href="'' @ escLink X dest @ ''"'']
                @ (if \<not> rel \<and> Flags (opts r) AND HrefTargetBlank \<noteq> 0 then [''target="_blank"''] else [])
                @ (if \<not> rel \<and> Flags (opts r) AND NofollowLinks \<noteq> 0 \<and> Flags (opts r) AND NoreferrerLinks \<noteq> 0
                     then [''rel="nofollow noreferrer"'']
                   else if \<not> rel \<and> Flags (opts r) AND NofollowLinks \<noteq> 0 then [''rel="nofollow"'']
                   else if \<not> rel \<and> Flags (opts r) AND NoreferrerLinks \<noteq> 0 then [''rel="noreferrer"'']
                   else [])
                @ (if LinkData.Title nodeData \<noteq> [] then [''title="'' @ EscapeHTML X (LinkData.Title nodeData) @ ''"''] else []))
               '' ''
          @ ''>'')\<close>
  using assms
  by (simp add: link_node_def linkEnter_def appendLinkAttrs_def quoted_def Let_def)


theorem linkEnter_attribute_order_witness:
  \<open>\<not> needSkipLink (Flags (opts allLinkFlags)) (LinkData.Destination titledLink)
   \<and> NoteID titledLink = 0
   \<and> addAbsPrefix allLinkFlags (LinkData.Destination titledLink) = Inr ''http://a1''
   \<and> isRelativeLink ''http://a1'' = Inr False
   \<and> link_node copyExternals (allLinkFlags, []) titledLink True =
        Inr (allLinkFlags\<lparr>lastOutputLen := 1\<rparr>,
             ''<a href="http://a1" target="_blank" rel="nofollow noreferrer" title="t">'')\<close>
proof -
  have h1: "\<not> needSkipLink (Flags (opts allLinkFlags)) (LinkData.Destination titledLink)"
    by code_simp
  have h2: "NoteID titledLink = 0"
    by (simp add: titledLink_def)
  have h3: "addAbsPrefix allLinkFlags (LinkData.Destination titledLink) = Inr ''http://a1''"
    by (simp add: addAbsPrefix_def allLinkFlags_def NewRenderer_def withFlags_def noOptions_def
        titledLink_def Let_def)
  have h4: "isRelativeLink ''http://a1'' = Inr False"
    by (simp add: isRelativeLink_def)
  have flags: "Flags (opts allLinkFlags) = 224"
    by (simp add: allLinkFlags_def NewRenderer_def withFlags_def noOptions_def Let_def
        NofollowLinks_def NoreferrerLinks_def HrefTargetBlank_def UseXHTML_def)
  have title: "LinkData.Title titledLink = ''t''"
    by (simp add: titledLink_def)
  show ?thesis
    using h1 h2 h3 h4 linkEnter_attribute_order[OF h1 h2 h3 h4, of copyExternals "[]"]
    by (simp add: flags title copyExternals_def NofollowLinks_def NoreferrerLinks_def
        HrefTargetBlank_def)
qed

text \<open>
  C6 as stated puts the rel attribute before the target attribute. With the nofollow,
  noreferrer and blank-target flags set, the tag written for \<open>http://a1\<close> has target
  first.
\<close>

theorem linkEnter_target_before_rel:
  \<open>map_sum id snd (link_node copyExternals (allLinkFlags, []) titledLink True)
      = Inr ''<a href="http://a1" target="_blank" rel="nofollow noreferrer" title="t">''
   \<and> map_sum id snd (link_node copyExternals (allLinkFlags, []) titledLink True)
      \<noteq> Inr ''<a href="http://a1" rel="nofollow noreferrer" target="_blank" title="t">''\<close>
proof -
  have \<open>map_sum id snd (link_node copyExternals (allLinkFlags, []) titledLink True)
      = Inr ''<a href="http://a1" target="_blank" rel="nofollow noreferrer" title="t">''\<close>
    by code_simp
  then show ?thesis
    by simp
qed

subsection \<open>Links with an empty destination\<close>

lemma isRelativeLink_defined_iff: "(\<exists>b. isRelativeLink link = Inr b) \<longleftrightarrow> link \<noteq> []"
  by (auto simp: isRelativeLink_def)

text \<open>
  C9. isRelativeLink reads \<open>link[0]\<close> with no length guard: it returns a value exactly for
  the non-empty links and panics with an index out of range on the empty one, and so
  does appendLinkAttrs, which calls it first. Rendering (entering) a Link node that is
  not a footnote, has an empty destination and passes the skip/safety policy therefore
  panics: linkEnter, the link renderer and RenderNode all end in that panic. With no
  absolute prefix configured addAbsPrefix returns the empty destination and the panic
  is the one of appendLinkAttrs; with a prefix configured the same read already panics
  in addAbsPrefix.
\<close>

theorem link_empty_destination_panics:
  assumes "LinkData.Destination nodeData = []"
    and "NoteID nodeData = 0"
    and "\<not> needSkipLink (Flags (opts r)) (LinkData.Destination nodeData)"
    and "RenderNodeHook (opts r) = None"
    and "Data (Self node) = LinkData nodeData"
  shows "isRelativeLink (LinkData.Destination nodeData) = Inl IndexOutOfRange
       \<and> (\<forall>link. (\<exists>b. isRelativeLink link = Inr b) \<longleftrightarrow> link \<noteq> [])
       \<and> (\<forall>attrs flags. appendLinkAttrs attrs flags (LinkData.Destination nodeData)
              = Inl IndexOutOfRange)
       \<and> addAbsPrefix r (LinkData.Destination nodeData)
            = (if AbsolutePrefix (opts r) = [] then Inr [] else Inl IndexOutOfRange)
       \<and> linkEnter X (r, w) nodeData = Inl IndexOutOfRange
       \<and> link_node X (r, w) nodeData True = Inl IndexOutOfRange
       \<and> RenderNode X (r, w) node True = Inl IndexOutOfRange"
proof -
  have rel: "isRelativeLink (LinkData.Destination nodeData) = Inl IndexOutOfRange"
    using assms(1) by (simp add: isRelativeLink_def)
  have app: "appendLinkAttrs attrs flags (LinkData.Destination nodeData) = Inl IndexOutOfRange"
    for attrs flags
    using assms(1) by (simp add: appendLinkAttrs_def isRelativeLink_def)
  have pre: "addAbsPrefix r (LinkData.Destination nodeData)
            = (if AbsolutePrefix (opts r) = [] then Inr [] else Inl IndexOutOfRange)"
    using assms(1) by (simp add: addAbsPrefix_def isRelativeLink_def)
  have enter: "linkEnter X (r, w) nodeData = Inl IndexOutOfRange"
    using assms(1,2) by (simp add: linkEnter_def addAbsPrefix_def appendLinkAttrs_def isRelativeLink_def)
  have lnk: "link_node X (r, w) nodeData True = Inl IndexOutOfRange"
    using assms(3) enter by (simp add: link_node_def)
  have rn: "RenderNode X (r, w) node True = Inl IndexOutOfRange"
    using assms(4,5) lnk by (simp add: RenderNode_def thenGoToNext_def)
  from rel app pre enter lnk rn isRelativeLink_defined_iff show ?thesis
    by blast
qed

theorem link_empty_destination_panics_witness:
  "isRelativeLink [] = Inl IndexOutOfRange
   \<and> appendLinkAttrs [] 0 [] = Inl IndexOutOfRange
   \<and> addAbsPrefix (NewRenderer copyExternals noOptions) [] = Inr []
   \<and> link_node copyExternals (NewRenderer copyExternals noOptions, []) emptyLink True
        = Inl IndexOutOfRange
   \<and> RenderNode copyExternals (NewRenderer copyExternals noOptions, [])
        \<lparr>Self = Node (LinkData emptyLink) [] [], Ancestors = [ParagraphData, DocumentData],
         PrevData = None, NextData = None\<rparr> True = Inl IndexOutOfRange"
proof -
  let ?r = "NewRenderer copyExternals noOptions"
  let ?c = "\<lparr>Self = Node (LinkData emptyLink) [] [], Ancestors = [ParagraphData, DocumentData],
         PrevData = None, NextData = None\<rparr>"
  have h1: "LinkData.Destination emptyLink = []"
    by (simp add: emptyLink_def)
  have h2: "NoteID emptyLink = 0"
    by (simp add: emptyLink_def)
  have h3: "\<not> needSkipLink (Flags (opts ?r)) (LinkData.Destination emptyLink)"
    by (simp add: needSkipLink_def NewRenderer_def noOptions_def Let_def)
  have h4: "RenderNodeHook (opts ?r) = None"
    by (simp add: NewRenderer_def noOptions_def Let_def)
  have h5: "Data (Self ?c) = LinkData emptyLink"
    by simp
  have pre: "AbsolutePrefix (opts ?r) = []"
    by (simp add: NewRenderer_def noOptions_def Let_def)
  show ?thesis
    using link_empty_destination_panics[OF h1 h2 h3 h4 h5, of copyExternals "[]"] h1 pre
    by simp
qed

subsection \<open>Images and the raw-tag suppression depth\<close>



lemma addAbsPrefix_defined:
  assumes "AbsolutePrefix (opts r) = [] \<or> dst \<noteq> []"
  shows "\<exists>dest. addAbsPrefix r dst = Inr dest"
proof (cases "AbsolutePrefix (opts r) = []")
  case True
  then show ?thesis by (simp add: addAbsPrefix_def)
next
  case False
  with assms have "dst \<noteq> []" by simp
  then obtain b where "isRelativeLink dst = Inr b"
    using isRelativeLink_defined_iff by blast
  then show ?thesis by (simp add: addAbsPrefix_def)
qed






subsection \<open>The dispatcher\<close>

text \<open>The panics each renderer can end in.\<close>

lemma bindP_Inl_iff: "(bindP m f = Inl e) \<longleftrightarrow> (m = Inl e \<or> (\<exists>x. m = Inr x \<and> f x = Inl e))"
  by (cases m) auto

lemma bindP_Inr_iff: "(bindP m f = Inr y) \<longleftrightarrow> (\<exists>x. m = Inr x \<and> f x = Inr y)"
  by (cases m) auto

lemma isRelativeLink_panic: "isRelativeLink l = Inl e \<Longrightarrow> e = IndexOutOfRange"
  by (simp add: isRelativeLink_def split: if_splits)

lemma slugify_no_panic: "slugify l \<noteq> Inl e"
  using slugify_total[of l] by auto

lemma addAbsPrefix_panic: "addAbsPrefix r l = Inl e \<Longrightarrow> e = IndexOutOfRange"
  by (auto simp: addAbsPrefix_def bindP_Inl_iff split: if_splits dest: isRelativeLink_panic)

lemma appendLinkAttrs_panic: "appendLinkAttrs a f l = Inl e \<Longrightarrow> e = IndexOutOfRange"
  by (auto simp: appendLinkAttrs_def bindP_Inl_iff Let_def split: if_splits dest: isRelativeLink_panic)

lemma footnoteRef_no_panic: "footnoteRef p n \<noteq> Inl e"
  by (auto simp: footnoteRef_def bindP_Inl_iff Let_def slugify_no_panic)

lemma linkEnter_panic: "linkEnter X rw nd = Inl e \<Longrightarrow> e = IndexOutOfRange"
  by (auto simp: linkEnter_def bindP_Inl_iff Let_def footnoteRef_no_panic split: if_splits
      dest: addAbsPrefix_panic appendLinkAttrs_panic)

lemma link_node_panic: "link_node X rw nd en = Inl e \<Longrightarrow> e = IndexOutOfRange"
  by (auto simp: link_node_def split: if_splits dest: linkEnter_panic)

lemma image_node_panic: "image_node X rw nd en = Inl e \<Longrightarrow> e = IndexOutOfRange"
  by (auto simp: image_node_def imageEnter_def bindP_Inl_iff Let_def split: if_splits
      dest: addAbsPrefix_panic)

lemma text_node_panic: "text_node X rw node = Inl e \<Longrightarrow> e = NilDereference"
  by (auto simp: text_node_def split: prod.splits option.splits if_splits)

lemma codeBlock_panic: "codeBlock X rw node nd = Inl e \<Longrightarrow> e = NilDereference"
  by (auto simp: codeBlock_def Let_def split: option.splits if_splits)

lemma skipParagraphTags_panic: "skipParagraphTags node = Inl e \<Longrightarrow> e = NilDereference"
  by (auto simp: skipParagraphTags_def Let_def split: list.splits NodeData.splits)

lemma paragraphEnter_panic: "paragraphEnter rw node = Inl e \<Longrightarrow> e = NilDereference"
  by (auto simp: paragraphEnter_def Let_def split: option.splits)

lemma paragraphExit_panic: "paragraphExit rw node = Inl e \<Longrightarrow> e = NilDereference"
  by (auto simp: paragraphExit_def Let_def split: option.splits if_splits)

lemma paragraph_node_panic: "paragraph_node rw node en = Inl e \<Longrightarrow> e = NilDereference"
  by (auto simp: paragraph_node_def bindP_Inl_iff split: if_splits
      dest: skipParagraphTags_panic paragraphEnter_panic paragraphExit_panic)

lemma heading_panic: "heading rw node nd en = Inl e \<Longrightarrow> e = NilDereference"
  by (auto simp: heading_def headingExit_def Let_def split: option.splits if_splits)

lemma listEnter_panic: "listEnter rw node nd = Inl e \<Longrightarrow> e = NilDereference"
  by (auto simp: listEnter_def bindP_Inl_iff Let_def split: list.splits if_splits)

lemma listExit_panic: "listExit rw node nd = Inl e \<Longrightarrow> e = NilDereference"
  by (auto simp: listExit_def Let_def split: option.splits if_splits)

lemma list_node_panic: "list_node rw node nd en = Inl e \<Longrightarrow> e = NilDereference"
  by (auto simp: list_node_def split: if_splits dest: listEnter_panic listExit_panic)

lemma itemOpenCR_panic: "itemOpenCR node = Inl e \<Longrightarrow> e = NilDereference \<or> e = TypeAssertion"
  by (auto simp: itemOpenCR_def split: if_splits option.splits NodeData.splits)

lemma listItemEnter_panic:
  "listItemEnter rw node nd = Inl e \<Longrightarrow> e = NilDereference \<or> e = TypeAssertion"
  by (auto simp: listItemEnter_def bindP_Inl_iff Let_def slugify_no_panic
      split: option.splits dest: itemOpenCR_panic)

lemma listItemExit_panic: "listItemExit rw node nd \<noteq> Inl e"
  by (auto simp: listItemExit_def bindP_Inl_iff Let_def slugify_no_panic
      split: option.splits if_splits)

lemma listItem_panic:
  "listItem rw node nd en = Inl e \<Longrightarrow> e = NilDereference \<or> e = TypeAssertion"
  by (auto simp: listItem_def listItemExit_panic split: if_splits dest: listItemEnter_panic)


text \<open>A renderer that can panic returns when the node is placed as it expects.\<close>

lemma slugify_Inr: "\<exists>s. slugify l = Inr s"
  by (rule slugify_total)

lemma link_node_defined:
  assumes "LinkData.Destination nd \<noteq> []"
  shows "\<exists>rw1. link_node X rw nd en = Inr rw1"
proof -
  obtain dest where d: "addAbsPrefix (fst rw) (LinkData.Destination nd) = Inr dest"
    using addAbsPrefix_defined[of "fst rw" "LinkData.Destination nd"] assms by blast
  have ne: "dest \<noteq> []"
    using d assms by (auto simp: addAbsPrefix_def bindP_Inr_iff split: if_splits)
  then obtain b where b: "isRelativeLink dest = Inr b"
    using isRelativeLink_defined_iff by blast
  obtain s where s: "slugify (LinkData.Destination nd) = Inr s"
    using slugify_total by blast
  show ?thesis
    using d b s
    by (simp add: link_node_def linkEnter_def linkExit_def appendLinkAttrs_def footnoteRef_def Let_def)
qed

lemma image_node_defined:
  assumes "ImageData.Destination nd \<noteq> []"
  shows "\<exists>rw1. image_node X rw nd en = Inr rw1"
proof -
  obtain dest where d: "addAbsPrefix (fst rw) (ImageData.Destination nd) = Inr dest"
    using addAbsPrefix_defined[of "fst rw" "ImageData.Destination nd"] assms by blast
  show ?thesis
    using d by (simp add: image_node_def imageEnter_def Let_def)
qed

lemma text_node_defined:
  assumes "Ancestors node \<noteq> []"
  shows "\<exists>rw1. text_node X rw node = Inr rw1"
  using assms by (auto simp: text_node_def Parent_def split: prod.splits list.splits)

lemma codeBlock_defined:
  assumes "Ancestors node \<noteq> []"
  shows "\<exists>rw1. codeBlock X rw node nd = Inr rw1"
  using assms by (auto simp: codeBlock_def Parent_def Let_def split: list.splits)

lemma paragraph_node_defined:
  assumes "Ancestors node \<noteq> []"
  shows "\<exists>rw1. paragraph_node rw node en = Inr rw1"
  using assms
  by (auto simp: paragraph_node_def skipParagraphTags_def paragraphEnter_def paragraphExit_def
      Parent_def Let_def split: list.splits NodeData.splits)

lemma heading_defined:
  assumes "Ancestors node \<noteq> []"
  shows "\<exists>rw1. heading rw node nd en = Inr rw1"
  using assms by (auto simp: heading_def headingExit_def Parent_def Let_def split: list.splits)

lemma list_node_defined:
  assumes "case Ancestors node of [] \<Rightarrow> False
           | parentData # rest \<Rightarrow> \<not> isListItemData parentData \<or> rest \<noteq> []"
  shows "\<exists>rw1. list_node rw node nd en = Inr rw1"
  using assms
  by (auto simp: list_node_def listEnter_def listExit_def Parent_def Let_def split: list.splits)

lemma listItem_defined:
  assumes "PrevData node = None
           \<or> (case Ancestors node of [] \<Rightarrow> False | parentData # _ \<Rightarrow> isListData parentData)"
  shows "\<exists>rw1. listItem rw node nd en = Inr rw1"
proof -
  have open_cr: "\<exists>b. itemOpenCR node = Inr b"
    using assms
    by (auto simp: itemOpenCR_def Parent_def isListData_def split: list.splits NodeData.splits)
  have slug: "\<exists>s. slugify l = Inr s" for l
    by (rule slugify_total)
  show ?thesis
  proof (cases "RefLink nd")
    case None
    with open_cr show ?thesis
      by (auto simp: listItem_def listItemEnter_def listItemExit_def Let_def)
  next
    case (Some refLink)
    obtain s where "slugify refLink = Inr s"
      using slug by blast
    with Some open_cr show ?thesis
      by (auto simp: listItem_def listItemEnter_def listItemExit_def Let_def)
  qed
qed

lemma thenGoToNext_Inl: "thenGoToNext m = Inl e \<longleftrightarrow> m = Inl e"
  by (cases m) (auto simp: thenGoToNext_def)

lemma thenGoToNext_Inr: "thenGoToNext m = Inr (rw1, st) \<longleftrightarrow> (m = Inr rw1 \<and> st = GoToNext)"
  by (cases m) (auto simp: thenGoToNext_def)

text \<open>RenderNode past the hook: the dispatch on the writer the hook has left.\<close>


lemma RenderNode_unknown:
  assumes "\<not> hookHandles r node entering" and "Data (Self node) = UnknownData"
  shows "RenderNode X (r, w) node entering = Inl UnknownNodeType"
  using assms
  by (simp add: RenderNode_def hookHandles_def split: option.splits prod.splits)

lemma RenderNode_known_panic:
  assumes "\<not> hookHandles r node entering" and "Data (Self node) \<noteq> UnknownData"
    and "RenderNode X (r, w) node entering = Inl e"
  shows "e \<noteq> UnknownNodeType"
proof (cases "Data (Self node)")
  case UnknownData
  with assms show ?thesis by simp
qed (use assms in \<open>auto simp: RenderNode_def hookHandles_def thenGoToNext_Inl
      split: option.splits prod.splits if_splits
      dest: text_node_panic link_node_panic image_node_panic codeBlock_panic
        paragraph_node_panic heading_panic list_node_panic listItem_panic\<close>)

lemma RenderNode_known_status:
  assumes "\<not> hookHandles r node entering"
    and "RenderNode X (r, w) node entering = Inr (rw1, st)"
  shows "st = knownKindStatus r (Data (Self node))"
  by (cases "Data (Self node)")
    (use assms in \<open>auto simp: RenderNode_def hookHandles_def thenGoToNext_Inr knownKindStatus_def
      split: option.splits prod.splits if_splits\<close>)

lemma RenderNode_known_defined:
  assumes "\<not> hookHandles r node entering" and "Data (Self node) \<noteq> UnknownData"
    and "wellPlaced node"
  shows "\<exists>rw1. RenderNode X (r, w) node entering = Inr (rw1, knownKindStatus r (Data (Self node)))"
proof -
  have "\<exists>rw1 st. RenderNode X (r, w) node entering = Inr (rw1, st)"
  proof (cases "Data (Self node)")
    case TextData
    then show ?thesis
      using assms text_node_defined[of node X]
      by (auto simp: RenderNode_def hookHandles_def thenGoToNext_def wellPlaced_def bindP_Inr_iff
          split: option.splits prod.splits)
  next
    case (LinkData nd)
    then show ?thesis
      using assms link_node_defined[of nd X _ entering]
      by (auto simp: RenderNode_def hookHandles_def thenGoToNext_def wellPlaced_def bindP_Inr_iff
          split: option.splits prod.splits)
  next
    case (ImageData nd)
    then show ?thesis
      using assms image_node_defined[of nd X _ entering]
      by (auto simp: RenderNode_def hookHandles_def thenGoToNext_def wellPlaced_def bindP_Inr_iff
          split: option.splits prod.splits)
  next
    case (CodeBlockData nd)
    then show ?thesis
      using assms codeBlock_defined[of node X _ nd]
      by (auto simp: RenderNode_def hookHandles_def thenGoToNext_def wellPlaced_def bindP_Inr_iff
          split: option.splits prod.splits)
  next
    case ParagraphData
    then show ?thesis
      using assms paragraph_node_defined[of node _ entering]
      by (auto simp: RenderNode_def hookHandles_def thenGoToNext_def wellPlaced_def bindP_Inr_iff
          split: option.splits prod.splits)
  next
    case (HeadingData nd)
    then show ?thesis
      using assms heading_defined[of node _ nd entering]
      by (auto simp: RenderNode_def hookHandles_def thenGoToNext_def wellPlaced_def bindP_Inr_iff
          split: option.splits prod.splits)
  next
    case (ListData nd)
    then show ?thesis
      using assms list_node_defined[of node _ nd entering]
      by (auto simp: RenderNode_def hookHandles_def thenGoToNext_def wellPlaced_def bindP_Inr_iff
          split: option.splits prod.splits)
  next
    case (ListItemData nd)
    then show ?thesis
      using assms listItem_defined[of node _ nd entering]
      by (auto simp: RenderNode_def hookHandles_def thenGoToNext_def wellPlaced_def bindP_Inr_iff
          split: option.splits prod.splits)
  qed (use assms in \<open>auto simp: RenderNode_def hookHandles_def split: option.splits prod.splits\<close>)
  then obtain rw1 st where res: "RenderNode X (r, w) node entering = Inr (rw1, st)"
    by blast
  then have "st = knownKindStatus r (Data (Self node))"
    using assms(1) by (rule RenderNode_known_status[rotated])
  with res show ?thesis by blast
qed

lemma RenderNode_skipped_image:
  assumes "\<not> hookHandles r node entering" and "Data (Self node) = ImageData nodeData"
    and "Flags (opts r) AND SkipImages \<noteq> 0"
  shows "RenderNode X (r, w) node entering =
           Inr ((r, w @ hookWritten r node entering), SkipChildren)"
  using assms
  by (auto simp: RenderNode_def hookHandles_def hookWritten_def split: option.splits prod.splits)

text \<open>
  C8 (as amended). Take a node that the hook of the options does not intercept. If its kind
  is outside the kinds RenderNode lists, RenderNode ends in the explicit panic of its
  default branch: nothing is skipped and no markup is returned. If its kind is one of
  those listed, RenderNode never ends in that panic, and whenever it returns, the
  status is go-to-next, except for an Image node while the SkipImages flag is set, for
  which it is skip-children. It does return for every node placed as the parser places
  nodes (\<open>wellPlaced\<close>); elsewhere a per-kind renderer may panic on a missing parent,
  on a parent of a list item that is not a list, or on an empty destination. For an
  Image node while SkipImages is set, RenderNode always returns, leaves the renderer as
  it was and writes nothing of its own: the writer holds, after what it held before,
  only the bytes the hook wrote before declining, none when no hook is set.
\<close>

theorem RenderNode_dispatch:
  assumes "\<not> hookHandles r node entering"
  shows "(Data (Self node) = UnknownData \<longrightarrow>
            RenderNode X (r, w) node entering = Inl UnknownNodeType)
       \<and> (Data (Self node) \<noteq> UnknownData \<longrightarrow>
            (\<forall>e. RenderNode X (r, w) node entering = Inl e \<longrightarrow> e \<noteq> UnknownNodeType)
          \<and> (\<forall>rw1 st. RenderNode X (r, w) node entering = Inr (rw1, st) \<longrightarrow>
                st = knownKindStatus r (Data (Self node)))
          \<and> (wellPlaced node \<longrightarrow>
                (\<exists>rw1. RenderNode X (r, w) node entering =
                         Inr (rw1, knownKindStatus r (Data (Self node))))))
       \<and> (\<forall>nodeData. Data (Self node) = ImageData nodeData \<and> Flags (opts r) AND SkipImages \<noteq> 0
              \<longrightarrow> RenderNode X (r, w) node entering =
                    Inr ((r, w @ hookWritten r node entering), SkipChildren))"
  using RenderNode_unknown[OF assms] RenderNode_known_panic[OF assms]
    RenderNode_known_status[OF assms] RenderNode_known_defined[OF assms]
    RenderNode_skipped_image[OF assms]
  by blast

theorem RenderNode_dispatch_witness:
  "\<not> hookHandles plainRenderer strayNode True
   \<and> Data (Self strayNode) = UnknownData
   \<and> RenderNode copyExternals (plainRenderer, []) strayNode True = Inl UnknownNodeType
   \<and> \<not> hookHandles plainRenderer pictureInParagraph True
   \<and> Data (Self pictureInParagraph) \<noteq> UnknownData
   \<and> wellPlaced pictureInParagraph
   \<and> (\<exists>rw1. RenderNode copyExternals (plainRenderer, []) pictureInParagraph True
               = Inr (rw1, GoToNext))
   \<and> \<not> hookHandles skippingImages pictureInParagraph True
   \<and> Flags (opts skippingImages) AND SkipImages \<noteq> 0
   \<and> RenderNode copyExternals (skippingImages, ''<p>'') pictureInParagraph True
        = Inr ((skippingImages, ''<p>''), SkipChildren)"
proof -
  have h3: "\<not> hookHandles skippingImages pictureInParagraph True"
    by (simp add: hookHandles_def skippingImages_def NewRenderer_def withFlags_def noOptions_def
        Let_def)
  have f3: "Flags (opts skippingImages) AND SkipImages \<noteq> 0"
    by (simp add: skippingImages_def NewRenderer_def withFlags_def noOptions_def Let_def
        SkipImages_def UseXHTML_def)
  have w3: "hookWritten skippingImages pictureInParagraph True = []"
    by (simp add: hookWritten_def skippingImages_def NewRenderer_def withFlags_def noOptions_def
        Let_def)
  have d3: "Data (Self pictureInParagraph) = ImageData picture"
    by (simp add: pictureInParagraph_def)
  have skipped: "RenderNode copyExternals (skippingImages, ''<p>'') pictureInParagraph True
        = Inr ((skippingImages, ''<p>''), SkipChildren)"
    using RenderNode_dispatch[OF h3, of copyExternals "''<p>''"] d3 f3 w3 by simp
  have h1: "\<not> hookHandles plainRenderer strayNode True"
    by (simp add: hookHandles_def plainRenderer_def NewRenderer_def noOptions_def Let_def)
  have d1: "Data (Self strayNode) = UnknownData"
    by (simp add: strayNode_def)
  have h2: "\<not> hookHandles plainRenderer pictureInParagraph True"
    by (simp add: hookHandles_def plainRenderer_def NewRenderer_def noOptions_def Let_def)
  have d2: "Data (Self pictureInParagraph) \<noteq> UnknownData"
    by (simp add: pictureInParagraph_def)
  have p2: "wellPlaced pictureInParagraph"
    by (simp add: wellPlaced_def pictureInParagraph_def picture_def)
  have s2: "knownKindStatus plainRenderer (Data (Self pictureInParagraph)) = GoToNext"
    by (simp add: knownKindStatus_def pictureInParagraph_def plainRenderer_def NewRenderer_def
        noOptions_def Let_def)
  have plain: "\<not> hookHandles plainRenderer strayNode True
   \<and> Data (Self strayNode) = UnknownData
   \<and> RenderNode copyExternals (plainRenderer, []) strayNode True = Inl UnknownNodeType
   \<and> \<not> hookHandles plainRenderer pictureInParagraph True
   \<and> Data (Self pictureInParagraph) \<noteq> UnknownData
   \<and> wellPlaced pictureInParagraph
   \<and> (\<exists>rw1. RenderNode copyExternals (plainRenderer, []) pictureInParagraph True
               = Inr (rw1, GoToNext))"
    using h1 d1 h2 d2 p2 s2
      RenderNode_dispatch[OF h1, of copyExternals "[]"]
      RenderNode_dispatch[OF h2, of copyExternals "[]"]
    by simp
  from plain h3 f3 skipped show ?thesis
    by blast
qed

text \<open>
  C8 as stated says that RenderNode returns go-to-next for every node of a known kind.
  For an Image node under the SkipImages flag it returns skip-children and writes
  nothing.
\<close>

theorem RenderNode_skips_images:
  "Data (Self pictureInParagraph) \<noteq> UnknownData
   \<and> \<not> hookHandles skippingImages pictureInParagraph True
   \<and> RenderNode copyExternals (skippingImages, []) pictureInParagraph True
        = Inr ((skippingImages, []), SkipChildren)
   \<and> SkipChildren \<noteq> GoToNext"
  by (simp add: RenderNode_def hookHandles_def skippingImages_def pictureInParagraph_def
      NewRenderer_def withFlags_def noOptions_def SkipImages_def UseXHTML_def Let_def)

subsection \<open>The table of contents\<close>















subsection \<open>Paragraphs in lists\<close>

text \<open>
  skipParagraphTags answers the condition \<open>rendersBare\<close> for every paragraph that has a
  parent; such a paragraph then writes nothing and leaves the renderer as it was. Any
  other paragraph, at suppression depth 0, writes \<open><p>\<close> after at most one newline on
  entering, and \<open></p>\<close> before at most one newline on exiting.
\<close>

lemma skipParagraphTags_eq:
  assumes "Ancestors node \<noteq> []"
  shows "skipParagraphTags node = Inr (rendersBare node)"
  using assms
  by (auto simp: skipParagraphTags_def rendersBare_def Let_def split: list.splits NodeData.splits)

lemma paragraph_bare:
  assumes "Ancestors node \<noteq> []" and "rendersBare node"
  shows "paragraph_node rw node entering = Inr rw"
  using assms by (simp add: paragraph_node_def skipParagraphTags_eq)

lemma paragraphEnter_written:
  assumes "Ancestors node \<noteq> []" and "disableTags r = 0"
  shows "\<exists>nl. (nl = [] \<or> nl = ''\<newline>'')
           \<and> paragraphEnter (r, w) node = Inr (r\<lparr>lastOutputLen := 3\<rparr>, w @ nl @ ''<p>'')"
proof -
  obtain parentData rest where anc: "Ancestors node = parentData # rest"
    using assms(1) by (cases "Ancestors node") auto
  have shape: "paragraphEnter (r, w) node = Inr (outs (r, w) ''<p>'')
                 \<or> paragraphEnter (r, w) node = Inr (outs (cr (r, w)) ''<p>'')"
  proof (cases "PrevData node")
    case None
    then show ?thesis
      using anc by (simp add: paragraphEnter_def Parent_def Let_def del: cr.simps outs.simps)
  next
    case (Some prevData)
    then show ?thesis
      using anc
      by (cases prevData)
        (simp_all add: paragraphEnter_def Parent_def Let_def del: cr.simps outs.simps)
  qed
  have plain: "outs (r, w) ''<p>'' = (r\<lparr>lastOutputLen := 3\<rparr>, w @ [] @ ''<p>'')"
    using assms(2) by simp
  have lead: "outs (cr (r, w)) ''<p>''
                = (r\<lparr>lastOutputLen := 3\<rparr>,
                   w @ (if lastOutputLen r > 0 then ''\<newline>'' else []) @ ''<p>'')"
    using assms(2) by simp
  from shape show ?thesis
  proof
    assume "paragraphEnter (r, w) node = Inr (outs (r, w) ''<p>'')"
    then have "([] = [] \<or> [] = ''\<newline>'')
        \<and> paragraphEnter (r, w) node = Inr (r\<lparr>lastOutputLen := 3\<rparr>, w @ [] @ ''<p>'')"
      unfolding plain by simp
    then show ?thesis
      by (rule exI[of _ "[]"])
  next
    assume "paragraphEnter (r, w) node = Inr (outs (cr (r, w)) ''<p>'')"
    then have "((if lastOutputLen r > 0 then ''\<newline>'' else []) = []
          \<or> (if lastOutputLen r > 0 then ''\<newline>'' else []) = ''\<newline>'')
        \<and> paragraphEnter (r, w) node
            = Inr (r\<lparr>lastOutputLen := 3\<rparr>,
                   w @ (if lastOutputLen r > 0 then ''\<newline>'' else []) @ ''<p>'')"
      unfolding lead by simp
    then show ?thesis
      by (rule exI[of _ "if lastOutputLen r > 0 then ''\<newline>'' else []"])
  qed
qed

lemma paragraphExit_written:
  assumes "Ancestors node \<noteq> []" and "disableTags r = 0"
  shows "\<exists>n nl. (nl = [] \<or> nl = ''\<newline>'')
           \<and> paragraphExit (r, w) node = Inr (r\<lparr>lastOutputLen := n\<rparr>, w @ ''</p>'' @ nl)"
proof -
  obtain parentData rest where anc: "Ancestors node = parentData # rest"
    using assms(1) by (cases "Ancestors node") auto
  show ?thesis
  proof (cases "isListItemData parentData \<and> NextData node = None")
    case True
    then have "([] = [] \<or> [] = ''\<newline>'')
        \<and> paragraphExit (r, w) node = Inr (r\<lparr>lastOutputLen := 4\<rparr>, w @ ''</p>'' @ [])"
      using anc assms(2) by (simp add: paragraphExit_def Parent_def Let_def)
    then show ?thesis
      by blast
  next
    case False
    then have "(''\<newline>'' = [] \<or> ''\<newline>'' = ''\<newline>'')
        \<and> paragraphExit (r, w) node = Inr (r\<lparr>lastOutputLen := 1\<rparr>, w @ ''</p>'' @ ''\<newline>'')"
      using anc assms(2) by (simp add: paragraphExit_def Parent_def Let_def)
    then show ?thesis
      by blast
  qed
qed

lemma RenderNode_paragraph:
  assumes "\<not> hookHandles r node entering" and "Data (Self node) = ParagraphData"
  shows "RenderNode X (r, w) node entering =
           thenGoToNext (paragraph_node (r, w @ hookWritten r node entering) node entering)"
  using assms
  by (auto simp: RenderNode_def hookHandles_def hookWritten_def split: option.splits prod.splits)

text \<open>
  The walk of a plain list under the document, from the text of a paragraph up to the
  list: each lemma gives the renderer and the bytes after the visit or the walk of one
  node. The renderer has no hook and no smartypants, and is at suppression depth 0.
\<close>

lemma visit_text_in_paragraph:
  assumes "RenderNodeHook (opts r) = None" and "Flags (opts r) AND Smartypants = 0"
  shows "renderVisit X (r, w) \<lparr>Self = Node TextData t [], Ancestors = ParagraphData # anc,
                               PrevData = p, NextData = n\<rparr> e =
           Inr ((r, w @ EscapeHTML X t), TextData, GoToNext)"
  using assms
  by (simp add: renderVisit_def RenderNode_def text_node_def thenGoToNext_def Parent_def
      isLinkData_def)

lemma visit_paragraph_in_item:
  assumes "RenderNodeHook (opts r) = None" and "disableTags r = 0"
    and "tight \<or> prv = None \<or> (prv = Some ParagraphData \<and> lastOutputLen r > 0)"
  shows "renderVisit X (r, w)
           \<lparr>Self = Node ParagraphData [] cs,
            Ancestors = ListItemData \<lparr>ListItemData.ListFlags = 0, RefLink = None\<rparr>
                        # ListData \<lparr>ListData.ListFlags = 0, Tight = tight, IsFootnotesList = False\<rparr>
                        # anc,
            PrevData = prv, NextData = nxt\<rparr> e =
           Inr ((if tight then (r, w)
                 else if e then (r\<lparr>lastOutputLen := 3\<rparr>,
                                 w @ (if prv = None then [] else ''\<newline>'') @ ''<p>'')
                 else (r\<lparr>lastOutputLen := (if nxt = None then 4 else 1)\<rparr>,
                       w @ ''</p>'' @ (if nxt = None then [] else ''\<newline>''))),
                ParagraphData, GoToNext)"
  using assms
  by (auto simp add: renderVisit_def RenderNode_def paragraph_node_def skipParagraphTags_def
      paragraphEnter_def paragraphExit_def thenGoToNext_def Parent_def isListItemTerm_def
      isListItemData_def isBlockQuoteData_def Let_def)

lemma walk_paragraph_in_item:
  assumes "RenderNodeHook (opts r) = None" and "Flags (opts r) AND Smartypants = 0"
    and "disableTags r = 0"
    and "tight \<or> prv = None \<or> (prv = Some ParagraphData \<and> lastOutputLen r > 0)"
  shows "walk (renderVisit X)
           (ListItemData \<lparr>ListItemData.ListFlags = 0, RefLink = None\<rparr>
            # ListData \<lparr>ListData.ListFlags = 0, Tight = tight, IsFootnotesList = False\<rparr> # anc)
           prv nxt (r, w) (paragraphOf t) =
         Inr ((if tight then (r, w @ EscapeHTML X t)
               else (r\<lparr>lastOutputLen := (if nxt = None then 4 else 1)\<rparr>,
                     w @ (if prv = None then [] else ''\<newline>'')
                       @ ''<p>'' @ EscapeHTML X t @ ''</p>''
                       @ (if nxt = None then [] else ''\<newline>''))),
              paragraphOf t, False)"
proof -
  let ?r1 = "r\<lparr>lastOutputLen := 3\<rparr>"
  have q1: "RenderNodeHook (opts ?r1) = None" "Flags (opts ?r1) AND Smartypants = 0"
    "disableTags ?r1 = 0"
    using assms by auto
  note rules = visit_paragraph_in_item[OF assms(1,3)] visit_paragraph_in_item[OF q1(1,3)]
    visit_text_in_paragraph[OF assms(1,2)] visit_text_in_paragraph[OF q1(1,2)]
  show ?thesis
    unfolding paragraphOf_def
    using assms(4) by (auto simp add: rules isContainer_def nextData_def)
qed

lemma walkChildren_paragraphs:
  assumes "RenderNodeHook (opts r) = None" and "Flags (opts r) AND Smartypants = 0"
    and "disableTags r = 0"
    and "tight \<or> prv = None \<or> (prv = Some ParagraphData \<and> lastOutputLen r > 0)"
  shows "walkChildren (renderVisit X)
           (ListItemData \<lparr>ListItemData.ListFlags = 0, RefLink = None\<rparr>
            # ListData \<lparr>ListData.ListFlags = 0, Tight = tight, IsFootnotesList = False\<rparr> # anc)
           prv (r, w) (map paragraphOf ps) =
         Inr ((if tight \<or> ps = [] then r else r\<lparr>lastOutputLen := 4\<rparr>,
               w @ (if tight then concat (map (EscapeHTML X) ps)
                    else looseParagraphs X (prv = None) ps)),
              map paragraphOf ps, False)"
  using assms
proof (induction ps arbitrary: r w prv)
  case Nil
  show ?case
    by simp
next
  case (Cons t ps)
  define nxt where "nxt = nextData (map paragraphOf ps)"
  have nxt: "nxt = None \<longleftrightarrow> ps = []"
    by (cases ps) (simp_all add: nxt_def nextData_def)
  define rw1 where "rw1 = (if tight then (r, w @ EscapeHTML X t)
      else (r\<lparr>lastOutputLen := (if nxt = None then 4 else 1)\<rparr>,
            w @ (if prv = None then [] else ''\<newline>'') @ ''<p>'' @ EscapeHTML X t @ ''</p>''
              @ (if nxt = None then [] else ''\<newline>'')))"
  define r1 where "r1 = fst rw1"
  define w1 where "w1 = snd rw1"
  have r1: "r1 = (if tight then r else r\<lparr>lastOutputLen := (if nxt = None then 4 else 1)\<rparr>)"
    by (simp add: r1_def rw1_def)
  have w1: "w1 = (if tight then w @ EscapeHTML X t
      else w @ (if prv = None then [] else ''\<newline>'') @ ''<p>'' @ EscapeHTML X t @ ''</p>''
             @ (if nxt = None then [] else ''\<newline>''))"
    by (simp add: w1_def rw1_def)
  have "walk (renderVisit X)
           (ListItemData \<lparr>ListItemData.ListFlags = 0, RefLink = None\<rparr>
            # ListData \<lparr>ListData.ListFlags = 0, Tight = tight, IsFootnotesList = False\<rparr> # anc)
           prv nxt (r, w) (paragraphOf t) = Inr (rw1, paragraphOf t, False)"
    unfolding rw1_def by (rule walk_paragraph_in_item[OF Cons.prems])
  then have first: "walk (renderVisit X)
           (ListItemData \<lparr>ListItemData.ListFlags = 0, RefLink = None\<rparr>
            # ListData \<lparr>ListData.ListFlags = 0, Tight = tight, IsFootnotesList = False\<rparr> # anc)
           prv nxt (r, w) (paragraphOf t) = Inr ((r1, w1), paragraphOf t, False)"
    by (simp add: r1_def w1_def)
  have q: "RenderNodeHook (opts r1) = None" "Flags (opts r1) AND Smartypants = 0"
    "disableTags r1 = 0"
    "tight \<or> Some ParagraphData = None
       \<or> (Some ParagraphData = Some ParagraphData \<and> lastOutputLen r1 > 0)"
    using Cons.prems by (auto simp: r1)
  have data: "Data (paragraphOf t) = ParagraphData"
    by (simp add: paragraphOf_def)
  have rest: "walkChildren (renderVisit X)
           (ListItemData \<lparr>ListItemData.ListFlags = 0, RefLink = None\<rparr>
            # ListData \<lparr>ListData.ListFlags = 0, Tight = tight, IsFootnotesList = False\<rparr> # anc)
           (Some ParagraphData) (r1, w1) (map paragraphOf ps) =
         Inr ((if tight \<or> ps = [] then r1 else r1\<lparr>lastOutputLen := 4\<rparr>,
               w1 @ (if tight then concat (map (EscapeHTML X) ps)
                    else looseParagraphs X False ps)),
              map paragraphOf ps, False)"
    using Cons.IH[OF q, of w1] by simp
  have whole: "walkChildren (renderVisit X)
           (ListItemData \<lparr>ListItemData.ListFlags = 0, RefLink = None\<rparr>
            # ListData \<lparr>ListData.ListFlags = 0, Tight = tight, IsFootnotesList = False\<rparr> # anc)
           prv (r, w) (map paragraphOf (t # ps)) =
         Inr ((if tight \<or> ps = [] then r1 else r1\<lparr>lastOutputLen := 4\<rparr>,
               w1 @ (if tight then concat (map (EscapeHTML X) ps)
                    else looseParagraphs X False ps)),
              map paragraphOf (t # ps), False)"
    using first rest by (simp add: nxt_def[symmetric] data)
  have st: "(if tight \<or> ps = [] then r1 else r1\<lparr>lastOutputLen := 4\<rparr>)
              = (if tight \<or> t # ps = [] then r else r\<lparr>lastOutputLen := 4\<rparr>)"
    using nxt by (simp add: r1)
  have bytes: "w1 @ (if tight then concat (map (EscapeHTML X) ps) else looseParagraphs X False ps)
              = w @ (if tight then concat (map (EscapeHTML X) (t # ps))
                     else looseParagraphs X (prv = None) (t # ps))"
    using nxt by (simp add: w1)
  show ?case
    unfolding whole st bytes ..
qed

lemma visit_item_in_list:
  assumes "RenderNodeHook (opts r) = None" and "disableTags r = 0" and "lastOutputLen r > 0"
  shows "renderVisit X (r, w)
           \<lparr>Self = Node (ListItemData \<lparr>ListItemData.ListFlags = 0, RefLink = None\<rparr>) [] cs,
            Ancestors = ListData \<lparr>ListData.ListFlags = 0, Tight = tight, IsFootnotesList = False\<rparr>
                        # anc,
            PrevData = prv, NextData = nxt\<rparr> e =
           Inr ((if e then (r\<lparr>lastOutputLen := 4\<rparr>,
                            w @ (if prv \<noteq> None \<and> \<not> tight then ''\<newline>'' else []) @ ''<li>'')
                 else (r\<lparr>lastOutputLen := 1\<rparr>, w @ ''</li>\<newline>'')),
                ListItemData \<lparr>ListItemData.ListFlags = 0, RefLink = None\<rparr>, GoToNext)"
  using assms
  by (simp add: renderVisit_def RenderNode_def listItem_def listItemEnter_def listItemExit_def
      itemOpenCR_def thenGoToNext_def Parent_def ListTypeDefinition_def ListTypeTerm_def Let_def)

lemma walk_item_in_list:
  assumes "RenderNodeHook (opts r) = None" and "Flags (opts r) AND Smartypants = 0"
    and "disableTags r = 0" and "lastOutputLen r = 1"
  shows "walk (renderVisit X)
           (ListData \<lparr>ListData.ListFlags = 0, Tight = tight, IsFootnotesList = False\<rparr> # anc)
           prv nxt (r, w) (itemOf 0 (map paragraphOf ps)) =
         Inr ((r, w @ (if tight then ''<li>'' @ concat (map (EscapeHTML X) ps) @ ''</li>\<newline>''
                       else (if prv = None then [] else ''\<newline>'')
                            @ ''<li>'' @ looseParagraphs X True ps @ ''</li>\<newline>'')),
              itemOf 0 (map paragraphOf ps), False)"
proof -
  let ?r4 = "r\<lparr>lastOutputLen := 4\<rparr>"
  have q0: "lastOutputLen r > 0"
    using assms(4) by simp
  have q4: "RenderNodeHook (opts ?r4) = None" "Flags (opts ?r4) AND Smartypants = 0"
    "disableTags ?r4 = 0" "lastOutputLen ?r4 > 0"
    using assms by simp_all
  have same: "r\<lparr>lastOutputLen := 1\<rparr> = r"
    using assms(4) by simp
  note rules = visit_item_in_list[OF assms(1,3) q0] visit_item_in_list[OF q4(1,3,4)]
    walkChildren_paragraphs[OF q4(1,2,3)]
  show ?thesis
    unfolding itemOf_def
    by (cases tight; cases prv)
      (simp_all add: rules isContainer_def same)
qed

lemma walkChildren_items:
  assumes "RenderNodeHook (opts r) = None" and "Flags (opts r) AND Smartypants = 0"
    and "disableTags r = 0" and "lastOutputLen r = 1"
  shows "walkChildren (renderVisit X)
           (ListData \<lparr>ListData.ListFlags = 0, Tight = tight, IsFootnotesList = False\<rparr> # anc)
           prv (r, w) (map (\<lambda>ps. itemOf 0 (map paragraphOf ps)) items) =
         Inr ((r, w @ (if tight then tightItems X items else looseItems X (prv = None) items)),
              map (\<lambda>ps. itemOf 0 (map paragraphOf ps)) items, False)"
proof (induction items arbitrary: w prv)
  case Nil
  show ?case
    by (simp add: tightItems_def)
next
  case (Cons ps items)
  define nxt where "nxt = nextData (map (\<lambda>ps. itemOf 0 (map paragraphOf ps)) items)"
  define w1 where "w1 = w @ (if tight then ''<li>'' @ concat (map (EscapeHTML X) ps) @ ''</li>\<newline>''
                       else (if prv = None then [] else ''\<newline>'')
                            @ ''<li>'' @ looseParagraphs X True ps @ ''</li>\<newline>'')"
  have first: "walk (renderVisit X)
           (ListData \<lparr>ListData.ListFlags = 0, Tight = tight, IsFootnotesList = False\<rparr> # anc)
           prv nxt (r, w) (itemOf 0 (map paragraphOf ps)) =
         Inr ((r, w1), itemOf 0 (map paragraphOf ps), False)"
    unfolding w1_def by (rule walk_item_in_list[OF assms])
  have data: "Some (Data (itemOf 0 (map paragraphOf ps))) \<noteq> None"
    by simp
  define prv1 where "prv1 = Some (Data (itemOf 0 (map paragraphOf ps)))"
  have prv1: "(prv1 = None) = False"
    by (simp add: prv1_def)
  have rest: "walkChildren (renderVisit X)
           (ListData \<lparr>ListData.ListFlags = 0, Tight = tight, IsFootnotesList = False\<rparr> # anc)
           prv1 (r, w1) (map (\<lambda>ps. itemOf 0 (map paragraphOf ps)) items) =
         Inr ((r, w1 @ (if tight then tightItems X items else looseItems X False items)),
              map (\<lambda>ps. itemOf 0 (map paragraphOf ps)) items, False)"
    using Cons.IH[of prv1 w1] by (simp add: prv1)
  have whole: "walkChildren (renderVisit X)
           (ListData \<lparr>ListData.ListFlags = 0, Tight = tight, IsFootnotesList = False\<rparr> # anc)
           prv (r, w) (map (\<lambda>ps. itemOf 0 (map paragraphOf ps)) (ps # items)) =
         Inr ((r, w1 @ (if tight then tightItems X items else looseItems X False items)),
              map (\<lambda>ps. itemOf 0 (map paragraphOf ps)) (ps # items), False)"
    using first rest by (simp add: nxt_def[symmetric] prv1_def[symmetric])
  have bytes: "w1 @ (if tight then tightItems X items else looseItems X False items)
                 = w @ (if tight then tightItems X (ps # items)
                        else looseItems X (prv = None) (ps # items))"
    by (simp add: w1_def tightItems_def)
  show ?case
    unfolding whole bytes ..
qed

lemma visit_list_in_document:
  assumes "RenderNodeHook (opts r) = None" and "disableTags r = 0"
    and "e \<longrightarrow> lastOutputLen r = 0"
  shows "renderVisit X (r, w)
           \<lparr>Self = Node (ListData \<lparr>ListData.ListFlags = 0, Tight = tight,
                                    IsFootnotesList = False\<rparr>) [] cs,
            Ancestors = [DocumentData], PrevData = None, NextData = None\<rparr> e =
           Inr ((r\<lparr>lastOutputLen := 1\<rparr>,
                 w @ (if e then ''<ul>\<newline>'' else ''</ul>\<newline>'')),
                ListData \<lparr>ListData.ListFlags = 0, Tight = tight, IsFootnotesList = False\<rparr>,
                GoToNext)"
  using assms
  by (simp add: renderVisit_def RenderNode_def list_node_def listEnter_def listExit_def
      thenGoToNext_def Parent_def isListItemData_def isDocumentData_def isBlockQuoteData_def
      ListTypeDefinition_def ListTypeOrdered_def Let_def)

lemma visit_document:
  assumes "RenderNodeHook (opts r) = None"
  shows "renderVisit X (r, w)
           \<lparr>Self = Node DocumentData [] cs, Ancestors = [], PrevData = None, NextData = None\<rparr> e =
           Inr ((r, w), DocumentData, GoToNext)"
  using assms
  by (simp add: renderVisit_def RenderNode_def thenGoToNext_def)

lemma renderTree_plainList:
  assumes "RenderNodeHook (opts r) = None" and "Flags (opts r) AND Smartypants = 0"
    and "disableTags r = 0" and "lastOutputLen r = 0"
  shows "renderTree X (r, w) (docOf [plainList tight items]) =
           Inr (r\<lparr>lastOutputLen := 1\<rparr>,
                w @ ''<ul>\<newline>''
                  @ (if tight then tightItems X items else looseItems X True items)
                  @ ''</ul>\<newline>'')"
proof -
  let ?r1 = "r\<lparr>lastOutputLen := 1\<rparr>"
  have q1: "RenderNodeHook (opts ?r1) = None" "Flags (opts ?r1) AND Smartypants = 0"
    "disableTags ?r1 = 0" "lastOutputLen ?r1 = 1"
    using assms by simp_all
  have e0: "True \<longrightarrow> lastOutputLen r = 0" "False \<longrightarrow> lastOutputLen ?r1 = 0"
    using assms(4) by simp_all
  note rules = visit_document[OF assms(1)] visit_document[OF q1(1)]
    visit_list_in_document[OF assms(1,3) e0(1)] visit_list_in_document[OF q1(1,3) e0(2)]
    walkChildren_items[OF q1]
  show ?thesis
    unfolding renderTree_def docOf_def plainList_def listOf_def
    by (simp add: rules isContainer_def nextData_def)
qed

text \<open>
  C7 (as amended). Take a Paragraph node that has a parent and that the hook of the
  options does not intercept. skipParagraphTags answers true exactly when the
  paragraph's grandparent is a list and that list is tight or the paragraph's parent is a
  term item (\<open>rendersBare\<close>). When it does, RenderNode leaves the renderer as it was and
  writes nothing of its own, neither tag nor newline (the writer holds, after what it held
  before, only what a hook wrote before declining). When it does not and the suppression
  depth is 0, RenderNode writes \<open><p>\<close> after at most one newline on entering, and
  \<open></p>\<close> followed by at most one newline on exiting, and changes nothing of the renderer
  but the length of its last output. Consequently, with no hook and no smartypants, the
  render of a document holding a plain list (unordered, no term or definition item) whose
  items hold paragraphs of text only is, for a tight list, \<open><ul>\<close>, one line
  \<open><li>\<close> texts \<open></li>\<close> per item and \<open></ul>\<close>, with no \<open><p>\<close> written by the renderer;
  for the same list loose, every paragraph of every item stands between \<open><p>\<close> and
  \<open></p>\<close>.
\<close>

theorem paragraph_tags_in_lists:
  "(Data (Self node) = ParagraphData \<and> Ancestors node \<noteq> [] \<and> \<not> hookHandles r node entering \<longrightarrow>
      skipParagraphTags node = Inr (rendersBare node)
      \<and> (rendersBare node \<longrightarrow>
           RenderNode X (r, w) node entering
             = Inr ((r, w @ hookWritten r node entering), GoToNext))
      \<and> (\<not> rendersBare node \<and> disableTags r = 0 \<longrightarrow>
           (\<exists>n nl. (nl = [] \<or> nl = ''\<newline>'')
              \<and> RenderNode X (r, w) node entering
                  = Inr ((r\<lparr>lastOutputLen := n\<rparr>,
                          w @ hookWritten r node entering
                            @ (if entering then nl @ ''<p>'' else ''</p>'' @ nl)),
                         GoToNext))))
   \<and> (RenderNodeHook (opts r) = None \<and> Flags (opts r) AND Smartypants = 0
        \<and> disableTags r = 0 \<and> lastOutputLen r = 0 \<longrightarrow>
        renderTree X (r, w) (docOf [plainList tight items])
          = Inr (r\<lparr>lastOutputLen := 1\<rparr>,
                 w @ ''<ul>\<newline>''
                   @ (if tight then tightItems X items else looseItems X True items)
                   @ ''</ul>\<newline>''))"
proof (intro conjI impI)
  assume a: "Data (Self node) = ParagraphData \<and> Ancestors node \<noteq> []
               \<and> \<not> hookHandles r node entering"
  show "skipParagraphTags node = Inr (rendersBare node)"
    using a by (simp add: skipParagraphTags_eq)
next
  assume a: "Data (Self node) = ParagraphData \<and> Ancestors node \<noteq> []
               \<and> \<not> hookHandles r node entering"
    and b: "rendersBare node"
  show "RenderNode X (r, w) node entering = Inr ((r, w @ hookWritten r node entering), GoToNext)"
    using a b by (simp add: RenderNode_paragraph paragraph_bare thenGoToNext_def)
next
  assume a: "Data (Self node) = ParagraphData \<and> Ancestors node \<noteq> []
               \<and> \<not> hookHandles r node entering"
    and b: "\<not> rendersBare node \<and> disableTags r = 0"
  define w0 where "w0 = w @ hookWritten r node entering"
  have node: "RenderNode X (r, w) node entering
                = thenGoToNext (if entering then paragraphEnter (r, w0) node
                                else paragraphExit (r, w0) node)"
    using a b by (simp add: RenderNode_paragraph paragraph_node_def skipParagraphTags_eq w0_def)
  show "\<exists>n nl. (nl = [] \<or> nl = ''\<newline>'')
              \<and> RenderNode X (r, w) node entering
                  = Inr ((r\<lparr>lastOutputLen := n\<rparr>,
                          w @ hookWritten r node entering
                            @ (if entering then nl @ ''<p>'' else ''</p>'' @ nl)),
                         GoToNext)"
  proof (cases entering)
    case True
    obtain nl where "nl = [] \<or> nl = ''\<newline>''"
      "paragraphEnter (r, w0) node = Inr (r\<lparr>lastOutputLen := 3\<rparr>, w0 @ nl @ ''<p>'')"
      using paragraphEnter_written[of node r w0] a b by blast
    then have "(nl = [] \<or> nl = ''\<newline>'')
              \<and> RenderNode X (r, w) node entering
                  = Inr ((r\<lparr>lastOutputLen := 3\<rparr>,
                          w @ hookWritten r node entering
                            @ (if entering then nl @ ''<p>'' else ''</p>'' @ nl)),
                         GoToNext)"
      unfolding node using True by (simp add: thenGoToNext_def w0_def)
    then show ?thesis
      by blast
  next
    case False
    obtain n nl where "nl = [] \<or> nl = ''\<newline>''"
      "paragraphExit (r, w0) node = Inr (r\<lparr>lastOutputLen := n\<rparr>, w0 @ ''</p>'' @ nl)"
      using paragraphExit_written[of node r w0] a b by blast
    then have "(nl = [] \<or> nl = ''\<newline>'')
              \<and> RenderNode X (r, w) node entering
                  = Inr ((r\<lparr>lastOutputLen := n\<rparr>,
                          w @ hookWritten r node entering
                            @ (if entering then nl @ ''<p>'' else ''</p>'' @ nl)),
                         GoToNext)"
      unfolding node using False by (simp add: thenGoToNext_def w0_def)
    then show ?thesis
      by blast
  qed
next
  assume "RenderNodeHook (opts r) = None \<and> Flags (opts r) AND Smartypants = 0
        \<and> disableTags r = 0 \<and> lastOutputLen r = 0"
  then show "renderTree X (r, w) (docOf [plainList tight items])
          = Inr (r\<lparr>lastOutputLen := 1\<rparr>,
                 w @ ''<ul>\<newline>''
                   @ (if tight then tightItems X items else looseItems X True items)
                   @ ''</ul>\<newline>'')"
    by (simp add: renderTree_plainList)
qed

theorem paragraph_tags_in_lists_witness:
  "Data (Self (paragraphIn True)) = ParagraphData
   \<and> Ancestors (paragraphIn True) \<noteq> []
   \<and> \<not> hookHandles plainRenderer (paragraphIn True) True
   \<and> rendersBare (paragraphIn True)
   \<and> RenderNode copyExternals (plainRenderer, []) (paragraphIn True) True
        = Inr ((plainRenderer, []), GoToNext)
   \<and> \<not> rendersBare (paragraphIn False)
   \<and> disableTags plainRenderer = 0
   \<and> (\<exists>n nl. (nl = [] \<or> nl = ''\<newline>'')
         \<and> RenderNode copyExternals (plainRenderer, []) (paragraphIn False) True
             = Inr ((plainRenderer\<lparr>lastOutputLen := n\<rparr>, nl @ ''<p>''), GoToNext))
   \<and> RenderNodeHook (opts plainRenderer) = None
   \<and> Flags (opts plainRenderer) AND Smartypants = 0
   \<and> lastOutputLen plainRenderer = 0
   \<and> renderTree copyExternals (plainRenderer, []) (docOf [plainList True [[''a''], [''b'', ''c'']]])
        = Inr (plainRenderer\<lparr>lastOutputLen := 1\<rparr>,
               ''<ul>\<newline><li>a</li>\<newline><li>bc</li>\<newline></ul>\<newline>'')
   \<and> renderTree copyExternals (plainRenderer, []) (docOf [plainList False [[''a''], [''b'', ''c'']]])
        = Inr (plainRenderer\<lparr>lastOutputLen := 1\<rparr>,
               ''<ul>\<newline><li><p>a</p></li>\<newline>\<newline><li><p>b</p>\<newline>\<newline><p>c</p></li>\<newline></ul>\<newline>'')"
proof -
  have d: "Data (Self (paragraphIn True)) = ParagraphData"
    "Data (Self (paragraphIn False)) = ParagraphData"
    by (simp_all add: paragraphIn_def paragraphOf_def)
  have a: "Ancestors (paragraphIn True) \<noteq> []" "Ancestors (paragraphIn False) \<noteq> []"
    by (simp_all add: paragraphIn_def)
  have h: "\<not> hookHandles plainRenderer (paragraphIn True) True"
    "\<not> hookHandles plainRenderer (paragraphIn False) True"
    by (simp_all add: hookHandles_def plainRenderer_def NewRenderer_def noOptions_def Let_def)
  have hw: "hookWritten plainRenderer (paragraphIn True) True = []"
    "hookWritten plainRenderer (paragraphIn False) True = []"
    by (simp_all add: hookWritten_def plainRenderer_def NewRenderer_def noOptions_def Let_def)
  have b: "rendersBare (paragraphIn True)" "\<not> rendersBare (paragraphIn False)"
    by (simp_all add: rendersBare_def paragraphIn_def isListItemTerm_def ListTypeTerm_def)
  have r: "disableTags plainRenderer = 0" "RenderNodeHook (opts plainRenderer) = None"
    "Flags (opts plainRenderer) AND Smartypants = 0" "lastOutputLen plainRenderer = 0"
    by (simp_all add: plainRenderer_def NewRenderer_def noOptions_def Let_def)
  have bare: "RenderNode copyExternals (plainRenderer, []) (paragraphIn True) True
        = Inr ((plainRenderer, []), GoToNext)"
    using paragraph_tags_in_lists[of "paragraphIn True" plainRenderer True copyExternals "[]"]
      d a h hw b
    by simp
  have tagged: "\<exists>n nl. (nl = [] \<or> nl = ''\<newline>'')
         \<and> RenderNode copyExternals (plainRenderer, []) (paragraphIn False) True
             = Inr ((plainRenderer\<lparr>lastOutputLen := n\<rparr>, nl @ ''<p>''), GoToNext)"
    using paragraph_tags_in_lists[of "paragraphIn False" plainRenderer True copyExternals "[]"]
      d a h hw b r
    by simp
  have e: "EscapeHTML copyExternals = (\<lambda>s. s)"
    by (simp add: copyExternals_def)
  have tight: "renderTree copyExternals (plainRenderer, []) (docOf [plainList True [[''a''], [''b'', ''c'']]])
        = Inr (plainRenderer\<lparr>lastOutputLen := 1\<rparr>,
               ''<ul>\<newline><li>a</li>\<newline><li>bc</li>\<newline></ul>\<newline>'')"
    using paragraph_tags_in_lists[of "paragraphIn True" plainRenderer True copyExternals "[]" True
        "[[''a''], [''b'', ''c'']]"] r
    by (simp add: tightItems_def e)
  have loose: "renderTree copyExternals (plainRenderer, []) (docOf [plainList False [[''a''], [''b'', ''c'']]])
        = Inr (plainRenderer\<lparr>lastOutputLen := 1\<rparr>,
               ''<ul>\<newline><li><p>a</p></li>\<newline>\<newline><li><p>b</p>\<newline>\<newline><p>c</p></li>\<newline></ul>\<newline>'')"
    using paragraph_tags_in_lists[of "paragraphIn True" plainRenderer True copyExternals "[]" False
        "[[''a''], [''b'', ''c'']]"] r
    by (simp add: e)
  from d(1) a(1) h(1) b r bare tagged tight loose show ?thesis
    by blast
qed

text \<open>
  C7 as stated has every item of a loose list rendered with \<open><p>\<close> around its content, and
  a paragraph bare only under a tight list or a term item. In a loose definition list the
  paragraph of the term item is bare: the term renders as \<open><dt>t</dt>\<close>. A paragraph
  directly under the document, so in neither case of the claim, writes no tag and no
  newline while the suppression depth is 1 (\<open>outs\<close> strips the tag). And a paragraph
  whose parent is a term item that is not in a list is not bare: it writes \<open><p>\<close>.
\<close>

theorem paragraph_bare_in_loose_list_and_silent_in_alt_text:
  "map_sum id snd (renderTree copyExternals (plainRenderer, []) looseDefinitionList)
     = Inr ''<dl>\<newline><dt>t</dt>\<newline><dd><p>d</p></dd>\<newline></dl>\<newline>''
   \<and> \<not> rendersBare topParagraph
   \<and> map_sum id (\<lambda>(rw, status). snd rw)
         (RenderNode copyExternals (plainRenderer\<lparr>disableTags := 1\<rparr>, []) topParagraph True)
       = Inr []
   \<and> map_sum id (\<lambda>(rw, status). snd rw)
         (RenderNode copyExternals (plainRenderer, []) termUnderDocument True)
       = Inr ''<p>''"
  by code_simp

end
